theory Spec2Isabelle
  imports Complex_Main "HOL-Library.AList"
begin

section \<open>Python values used by the backend\<close>

text \<open>
  \<^verbatim>\<open>time.time()\<close> returns seconds as a float; it is modelled as a \<open>real\<close>, and every
  place that calls it is an argument of the function that holds the place. \<^verbatim>\<open>datetime.now(timezone.utc)\<close>
  is modelled as the number of microseconds since the epoch (an \<open>int\<close>), again one argument
  per call. Python dictionaries keep insertion order, so a dictionary is an association list:
  \<open>AList.update\<close> overwrites in place or appends, \<open>AList.delete\<close> is \<^verbatim>\<open>pop(k, None)\<close>.
\<close>

type_synonym datetime = int

definition py_int :: "real \<Rightarrow> int" where
  \<comment> \<open>\<^verbatim>\<open>int(x)\<close> on a float truncates toward zero.\<close>
  "py_int x = (if 0 \<le> x then \<lfloor>x\<rfloor> else \<lceil>x\<rceil>)"

definition py_round2 :: "real \<Rightarrow> real" where
  \<comment> \<open>\<^verbatim>\<open>round(x, 2)\<close>: nearest multiple of 0.01, ties to the even one, taken on the
      exact value (Python takes it on the binary float, so the two can differ at a tie).\<close>
  "py_round2 x =
     (let y = x * 100; f = \<lfloor>y\<rfloor>; d = y - of_int f
      in of_int (if d < 1 / 2 then f else if 1 / 2 < d then f + 1
                 else if even f then f else f + 1) / 100)"

definition char_upper :: "char \<Rightarrow> char" where
  "char_upper c =
     (let n = (of_char c :: nat) in if 97 \<le> n \<and> n \<le> 122 then char_of (n - 32) else c)"

definition py_upper :: "string \<Rightarrow> string" where
  \<comment> \<open>\<^verbatim>\<open>str.upper()\<close> on ASCII text; the catalog's region codes are ASCII letters.\<close>
  "py_upper s = map char_upper s"

definition truncate_hour :: "datetime \<Rightarrow> datetime" where
  \<comment> \<open>\<^verbatim>\<open>dt.replace(minute=0, second=0, microsecond=0)\<close> on a UTC datetime.\<close>
  "truncate_hour dt = dt - dt mod 3600000000"

definition timedelta_minutes :: "int \<Rightarrow> int" where
  "timedelta_minutes m = m * 60000000"

datatype http_error = HTTPException (status_code: int) (detail: string)

section \<open>no\_logs.py: the retention store\<close>

definition NO_LOGS_RETENTION_MINUTES :: int where
  "NO_LOGS_RETENTION_MINUTES = 5"

text \<open>
  A row of the table \<^verbatim>\<open>server_logs\<close> (models.py, class ServerLog). The surrogate primary
  key, a fresh uuid4 per row, is not a field here: a row is identified by its place in the
  table.
\<close>

record ServerLog =
  event_type :: string
  server_id :: "string option"
  timestamp :: datetime
  duration_seconds :: "int option"
  bytes_transferred :: "int option"
  protocol :: "string option"
  anonymized_region :: "string option"
  purge_after :: datetime
  is_purged :: bool
  no_logs_compliant :: bool

text \<open>
  \<open>create_minimal_log\<close> reads the clock twice: \<open>clock1\<close> is the read that computes
  \<^verbatim>\<open>purge_at\<close>, \<open>clock2\<close> the one bound to \<^verbatim>\<open>now\<close>. The argument \<open>server_id_arg\<close> is
  accepted and never stored, as in the source.
\<close>

definition create_minimal_log ::
  "ServerLog list \<Rightarrow> string \<Rightarrow> string option \<Rightarrow> int option \<Rightarrow> int option \<Rightarrow>
   string option \<Rightarrow> string option \<Rightarrow> datetime \<Rightarrow> datetime \<Rightarrow> ServerLog \<times> ServerLog list" where
  "create_minimal_log db event_type_arg server_id_arg duration bytes proto region clock1 clock2 =
     (let anonymized =
            (case region of
               None \<Rightarrow> None
             | Some r \<Rightarrow> if r \<noteq> [] \<and> 2 \<le> length r then Some (py_upper (take 2 r)) else None);
          purge_at = clock1 + timedelta_minutes NO_LOGS_RETENTION_MINUTES;
          now = clock2;
          rounded_timestamp = truncate_hour now;
          log_row = \<lparr>event_type = event_type_arg,
                 server_id = None,
                 timestamp = rounded_timestamp,
                 duration_seconds = duration,
                 bytes_transferred = bytes,
                 protocol = proto,
                 anonymized_region = anonymized,
                 purge_after = purge_at,
                 is_purged = False,
                 no_logs_compliant = True\<rparr>
      in (log_row, db @ [log_row]))"

fun delete_loop :: "ServerLog list \<Rightarrow> ServerLog list \<times> nat \<Rightarrow> ServerLog list \<times> nat" where
  "delete_loop [] (db, count) = (db, count)"
| "delete_loop (log_row # rest) (db, count) = delete_loop rest (remove1 log_row db, count + 1)"

definition purge_expired_logs :: "datetime \<Rightarrow> ServerLog list \<Rightarrow> nat \<times> ServerLog list" where
  "purge_expired_logs now db =
     (let expired = filter (\<lambda>l. purge_after l \<le> now \<and> is_purged l = False) db;
          (db', count) = delete_loop expired (db, 0)
      in (count, if 0 < count then db' else db))"

section \<open>main.py: session registry and kill-switch registry\<close>

definition KILL_SWITCH_HEARTBEAT_INTERVAL :: real where
  "KILL_SWITCH_HEARTBEAT_INTERVAL = 10"

definition KILL_SWITCH_TIMEOUT :: real where
  "KILL_SWITCH_TIMEOUT = 30"

record server =
  srv_id :: string
  srv_flag :: string

definition SERVERS :: "server list" where
  "SERVERS =
     [\<lparr>srv_id = ''us-east-1'', srv_flag = ''US''\<rparr>,
      \<lparr>srv_id = ''us-west-1'', srv_flag = ''US''\<rparr>,
      \<lparr>srv_id = ''uk-london-1'', srv_flag = ''GB''\<rparr>,
      \<lparr>srv_id = ''jp-tokyo-1'', srv_flag = ''JP''\<rparr>,
      \<lparr>srv_id = ''de-frankfurt-1'', srv_flag = ''DE''\<rparr>,
      \<lparr>srv_id = ''sg-singapore-1'', srv_flag = ''SG''\<rparr>,
      \<lparr>srv_id = ''au-sydney-1'', srv_flag = ''AU''\<rparr>,
      \<lparr>srv_id = ''ca-toronto-1'', srv_flag = ''CA''\<rparr>,
      \<lparr>srv_id = ''nl-amsterdam-1'', srv_flag = ''NL''\<rparr>,
      \<lparr>srv_id = ''ch-zurich-1'', srv_flag = ''CH''\<rparr>,
      \<lparr>srv_id = ''fr-paris-1'', srv_flag = ''FR''\<rparr>,
      \<lparr>srv_id = ''kr-seoul-1'', srv_flag = ''KR''\<rparr>,
      \<lparr>srv_id = ''br-saopaulo-1'', srv_flag = ''BR''\<rparr>,
      \<lparr>srv_id = ''in-mumbai-1'', srv_flag = ''IN''\<rparr>,
      \<lparr>srv_id = ''se-stockholm-1'', srv_flag = ''SE''\<rparr>]"

definition STEALTH_PROTOCOLS :: "string list" where
  "STEALTH_PROTOCOLS = [''shadowsocks'', ''v2ray'', ''obfs4'']"

text \<open>
  A session dictionary. The fields kept are the ones the lifecycle code reads back; the
  descriptive payload attached at connect time (virtual address, stealth and proxy
  descriptors) is opaque to it and left out.
\<close>

record session =
  s_session_id :: string
  s_server_id :: string
  s_server :: server
  s_protocol :: string
  s_connected_at :: real
  s_kill_switch :: bool
  s_user_id :: "string option"

datatype ks_status = Active | Warning | Triggered

record kill_switch =
  ks_session_id :: string
  enabled :: bool
  last_heartbeat :: real
  heartbeat_interval_sec :: real
  timeout_sec :: real
  missed_heartbeats :: int
  max_missed_heartbeats :: int
  status_ks :: ks_status

record state =
  active_sessions :: "(string \<times> session) list"
  kill_switch_registry :: "(string \<times> kill_switch) list"
  server_logs :: "ServerLog list"

definition kill_switch_register ::
  "string \<Rightarrow> bool \<Rightarrow> real \<Rightarrow> (string \<times> kill_switch) list \<Rightarrow> (string \<times> kill_switch) list" where
  "kill_switch_register session_id en now reg =
     (if \<not> en then reg
      else AList.update session_id
             \<lparr>ks_session_id = session_id,
              enabled = True,
              last_heartbeat = now,
              heartbeat_interval_sec = KILL_SWITCH_HEARTBEAT_INTERVAL,
              timeout_sec = KILL_SWITCH_TIMEOUT,
              missed_heartbeats = 0,
              max_missed_heartbeats = 3,
              status_ks = Active\<rparr> reg)"

record heartbeat_result =
  hb_session_id :: string
  hb_status :: ks_status
  heartbeat_received :: bool
  time_since_last_heartbeat_sec :: real
  next_heartbeat_due_sec :: real

definition kill_switch_heartbeat ::
  "string \<Rightarrow> real \<Rightarrow> (string \<times> kill_switch) list \<Rightarrow>
   (string + heartbeat_result) \<times> (string \<times> kill_switch) list" where
  "kill_switch_heartbeat session_id now reg =
     (case map_of reg session_id of
        None \<Rightarrow> (Inl ''Kill switch not registered for this session'', reg)
      | Some ks \<Rightarrow>
          (let time_since_last = now - last_heartbeat ks;
               ks' = ks\<lparr>last_heartbeat := now, missed_heartbeats := 0, status_ks := Active\<rparr>
           in (Inr \<lparr>hb_session_id = session_id,
                    hb_status = Active,
                    heartbeat_received = True,
                    time_since_last_heartbeat_sec = py_round2 time_since_last,
                    next_heartbeat_due_sec = KILL_SWITCH_HEARTBEAT_INTERVAL\<rparr>,
               AList.update session_id ks' reg)))"

text \<open>
  One entry of the list \<^verbatim>\<open>terminated\<close> that \<open>kill_switch_check_all\<close> returns (its
  \<^verbatim>\<open>terminated_at\<close> display string is left out).
\<close>

record terminated =
  t_session_id :: string
  t_reason :: string
  t_missed_heartbeats :: int
  t_elapsed_since_last_heartbeat_sec :: real
  t_server_id :: string

record check_acc =
  c_sessions :: "(string \<times> session) list"
  c_registry :: "(string \<times> kill_switch) list"
  c_terminated :: "terminated list"
  c_expired :: "string list"

definition check_body :: "real \<Rightarrow> string \<Rightarrow> kill_switch \<Rightarrow> check_acc \<Rightarrow> check_acc" where
  "check_body now sid ks acc =
     (if \<not> enabled ks then acc
      else
        let elapsed = now - last_heartbeat ks;
            missed = py_int (elapsed / KILL_SWITCH_HEARTBEAT_INTERVAL);
            ks1 = ks\<lparr>missed_heartbeats := missed\<rparr>
        in if KILL_SWITCH_TIMEOUT \<le> elapsed then
             let acc1 = acc\<lparr>c_registry := AList.update sid (ks1\<lparr>status_ks := Triggered\<rparr>) (c_registry acc)\<rparr>;
                 acc2 = (case map_of (c_sessions acc1) sid of
                           None \<Rightarrow> acc1
                         | Some session \<Rightarrow>
                             acc1\<lparr>c_sessions := AList.delete sid (c_sessions acc1),
                                  c_terminated := c_terminated acc1 @
                                    [\<lparr>t_session_id = sid,
                                      t_reason = ''heartbeat_timeout'',
                                      t_missed_heartbeats = missed,
                                      t_elapsed_since_last_heartbeat_sec = py_round2 elapsed,
                                      t_server_id = s_server_id session\<rparr>]\<rparr>)
             in acc2\<lparr>c_expired := c_expired acc2 @ [sid]\<rparr>
           else if 1 \<le> missed then
             acc\<lparr>c_registry := AList.update sid (ks1\<lparr>status_ks := Warning\<rparr>) (c_registry acc)\<rparr>
           else acc\<lparr>c_registry := AList.update sid ks1 (c_registry acc)\<rparr>)"

fun check_loop :: "real \<Rightarrow> (string \<times> kill_switch) list \<Rightarrow> check_acc \<Rightarrow> check_acc" where
  "check_loop now [] acc = acc"
| "check_loop now ((sid, ks) # items) acc = check_loop now items (check_body now sid ks acc)"

definition check_scan :: "real \<Rightarrow> state \<Rightarrow> check_acc" where
  \<comment> \<open>The first loop of \<open>kill_switch_check_all\<close>, over the items of the registry.\<close>
  "check_scan now st =
     check_loop now (kill_switch_registry st)
       \<lparr>c_sessions = active_sessions st, c_registry = kill_switch_registry st,
        c_terminated = [], c_expired = []\<rparr>"

definition kill_switch_check_all :: "real \<Rightarrow> state \<Rightarrow> terminated list \<times> state" where
  "kill_switch_check_all now st =
     (let acc = check_scan now st;
          reg' = fold AList.delete (c_expired acc) (c_registry acc)
      in (c_terminated acc,
          st\<lparr>active_sessions := c_sessions acc, kill_switch_registry := reg'\<rparr>))"

section \<open>main.py: the request handlers\<close>

text \<open>
  Each handler takes what the environment supplies as arguments: the identifier minted by
  \<^verbatim>\<open>uuid.uuid4()\<close>, the authenticated caller, the clock reads and the random factor. The
  handlers answer with \<open>Inl\<close> of the raised \<open>HTTPException\<close> or \<open>Inr\<close> of the response, and
  with the state they leave. The per-user counters of the table of users and the display
  fields of the responses are not part of the model.
\<close>

definition truthy :: "string option \<Rightarrow> bool" where
  \<comment> \<open>Python truth of an \<^verbatim>\<open>Optional[str]\<close>: neither \<^verbatim>\<open>None\<close> nor empty.\<close>
  "truthy x = (case x of None \<Rightarrow> False | Some s \<Rightarrow> s \<noteq> [])"

record ConnectRequest =
  req_server_id :: string
  req_protocol :: "string option"
  req_stealth_mode :: "string option"
  req_kill_switch :: "bool option"

definition connect ::
  "ConnectRequest \<Rightarrow> string \<Rightarrow> string \<Rightarrow> real \<Rightarrow> real \<Rightarrow> datetime \<Rightarrow> datetime \<Rightarrow> state \<Rightarrow>
   (http_error + string) \<times> state" where
  "connect req session_id current_user now_connect now_register clock1 clock2 st =
     (case find (\<lambda>s. srv_id s = req_server_id req) SERVERS of
        None \<Rightarrow> (Inl (HTTPException 404 ''Server not found''), st)
      | Some srv \<Rightarrow>
          if truthy (req_stealth_mode req) \<and> the (req_stealth_mode req) \<notin> set STEALTH_PROTOCOLS
          then (Inl (HTTPException 400 ''Unknown stealth protocol''), st)
          else
            let sess = \<lparr>s_session_id = session_id,
                        s_server_id = req_server_id req,
                        s_server = srv,
                        s_protocol = (if truthy (req_protocol req) then the (req_protocol req)
                                      else ''WireGuard''),
                        s_connected_at = now_connect,
                        s_kill_switch = False,
                        s_user_id = None\<rparr>;
                sessions1 = AList.update session_id sess (active_sessions st);
                (sess2, reg2) =
                  (if req_kill_switch req = Some True
                   then (sess\<lparr>s_kill_switch := True\<rparr>,
                         kill_switch_register session_id True now_register (kill_switch_registry st))
                   else (sess, kill_switch_registry st));
                sess3 = sess2\<lparr>s_user_id := Some current_user\<rparr>;
                sessions3 = AList.update session_id sess3 sessions1;
                (log_row, db') =
                  create_minimal_log (server_logs st) ''session_start'' None None None
                    (req_protocol req) (Some (srv_flag srv)) clock1 clock2
            in (Inr session_id,
                \<lparr>active_sessions = sessions3, kill_switch_registry = reg2, server_logs = db'\<rparr>))"

definition connect_multi_hop ::
  "string \<Rightarrow> string \<Rightarrow> string option \<Rightarrow> bool option \<Rightarrow> string \<Rightarrow> string \<Rightarrow> real \<Rightarrow> real \<Rightarrow>
   datetime \<Rightarrow> datetime \<Rightarrow> state \<Rightarrow> (http_error + string) \<times> state" where
  "connect_multi_hop entry_server_id exit_server_id stealth_mode kill_sw session_id current_user
       now_connect now_register clock1 clock2 st =
     (case find (\<lambda>s. srv_id s = entry_server_id) SERVERS of
        None \<Rightarrow> (Inl (HTTPException 404 (''Entry server not found: '' @ entry_server_id)), st)
      | Some entry_server \<Rightarrow>
         (case find (\<lambda>s. srv_id s = exit_server_id) SERVERS of
            None \<Rightarrow> (Inl (HTTPException 404 (''Exit server not found: '' @ exit_server_id)), st)
          | Some exit_server \<Rightarrow>
              if entry_server_id = exit_server_id
              then (Inl (HTTPException 400 ''Entry and exit servers must be different''), st)
              else if truthy stealth_mode \<and> the stealth_mode \<notin> set STEALTH_PROTOCOLS
              then (Inl (HTTPException 400 ''Unknown stealth protocol''), st)
              else
                let sess = \<lparr>s_session_id = session_id,
                            s_server_id = exit_server_id,
                            s_server = exit_server,
                            s_protocol = ''WireGuard'',
                            s_connected_at = now_connect,
                            s_kill_switch = (kill_sw = Some True),
                            s_user_id = None\<rparr>;
                    sessions1 = AList.update session_id sess (active_sessions st);
                    reg2 = (if kill_sw = Some True
                            then kill_switch_register session_id True now_register
                                   (kill_switch_registry st)
                            else kill_switch_registry st);
                    sessions3 =
                      AList.update session_id (sess\<lparr>s_user_id := Some current_user\<rparr>) sessions1;
                    (log_row, db') =
                      create_minimal_log (server_logs st) ''multi_hop_session_start'' None None
                        None (Some ''WireGuard (Double-encrypted)'') None clock1 clock2
                in (Inr session_id,
                    \<lparr>active_sessions = sessions3, kill_switch_registry = reg2,
                     server_logs = db'\<rparr>)))"

datatype status_response =
  Status_disconnected (n_active_sessions: nat)
| Status_connected (st_session_id: string) (st_uptime_seconds: int)

definition status :: "string option \<Rightarrow> real \<Rightarrow> state \<Rightarrow> status_response \<times> state" where
  "status session_id now st =
     (let session_id1 =
            (if \<not> truthy session_id \<and> active_sessions st \<noteq> []
             then Some (fst (last (active_sessions st))) else session_id)
      in if \<not> truthy session_id1 then (Status_disconnected (length (active_sessions st)), st)
         else case map_of (active_sessions st) (the session_id1) of
                None \<Rightarrow> (Status_disconnected (length (active_sessions st)), st)
              | Some sess \<Rightarrow>
                  (Status_connected (the session_id1) (py_int (now - s_connected_at sess)), st))"

record disconnect_response =
  d_status :: string
  d_session_id :: string
  d_uptime_seconds :: int

definition disconnect ::
  "string \<Rightarrow> string \<Rightarrow> real \<Rightarrow> int \<Rightarrow> datetime \<Rightarrow> datetime \<Rightarrow> state \<Rightarrow>
   (http_error + disconnect_response) \<times> state" where
  "disconnect session_id current_user now rnd clock1 clock2 st =
     (case map_of (active_sessions st) session_id of
        None \<Rightarrow> (Inl (HTTPException 404 ''Session not found''), st)
      | Some sess \<Rightarrow>
          let sessions' = AList.delete session_id (active_sessions st);
              uptime = py_int (now - s_connected_at sess);
              reg' = AList.delete session_id (kill_switch_registry st);
              bytes = uptime * rnd;
              (log_row, db') =
                create_minimal_log (server_logs st) ''session_end'' None (Some uptime)
                  (Some bytes) (Some (s_protocol sess)) (Some (srv_flag (s_server sess)))
                  clock1 clock2
          in (Inr \<lparr>d_status = ''disconnected'', d_session_id = session_id,
                   d_uptime_seconds = uptime\<rparr>,
              \<lparr>active_sessions = sessions', kill_switch_registry = reg', server_logs = db'\<rparr>))"

definition enable_kill_switch ::
  "string \<Rightarrow> string \<Rightarrow> real \<Rightarrow> state \<Rightarrow> (http_error + kill_switch) \<times> state" where
  "enable_kill_switch session_id current_user now st =
     (case map_of (active_sessions st) session_id of
        None \<Rightarrow> (Inl (HTTPException 404 ''Session not found''), st)
      | Some sess \<Rightarrow>
          let reg' = kill_switch_register session_id True now (kill_switch_registry st);
              sessions' = AList.update session_id (sess\<lparr>s_kill_switch := True\<rparr>)
                            (active_sessions st)
          in (Inr (the (map_of reg' session_id)),
              st\<lparr>active_sessions := sessions', kill_switch_registry := reg'\<rparr>))"

definition heartbeat ::
  "string \<Rightarrow> string \<Rightarrow> real \<Rightarrow> state \<Rightarrow> (http_error + heartbeat_result) \<times> state" where
  "heartbeat session_id current_user now st =
     (if map_of (active_sessions st) session_id = None then
        (Inl (HTTPException 404 ''Session not found or already terminated by kill switch''),
         if map_of (kill_switch_registry st) session_id \<noteq> None
         then st\<lparr>kill_switch_registry := AList.delete session_id (kill_switch_registry st)\<rparr>
         else st)
      else
        case kill_switch_heartbeat session_id now (kill_switch_registry st) of
          (Inl err, reg') \<Rightarrow> (Inl (HTTPException 400 err), st\<lparr>kill_switch_registry := reg'\<rparr>)
        | (Inr result, reg') \<Rightarrow> (Inr result, st\<lparr>kill_switch_registry := reg'\<rparr>))"

datatype kill_switch_status_response =
  Ks_not_registered string
| Ks_registered string bool ks_status int real real
| Ks_summary nat "(string \<times> ks_status \<times> int \<times> real) list"

definition kill_switch_status ::
  "string option \<Rightarrow> real \<Rightarrow> state \<Rightarrow> kill_switch_status_response \<times> state" where
  "kill_switch_status session_id now st =
     (if truthy session_id then
        (case map_of (kill_switch_registry st) (the session_id) of
           None \<Rightarrow> (Ks_not_registered (the session_id), st)
         | Some ks \<Rightarrow>
             (Ks_registered (the session_id) (enabled ks) (status_ks ks) (missed_heartbeats ks)
                (py_round2 (now - last_heartbeat ks)) (timeout_sec ks), st))
      else
        (Ks_summary (length (kill_switch_registry st))
           (map (\<lambda>(sid, ks). (sid, status_ks ks, missed_heartbeats ks,
                              py_round2 (now - last_heartbeat ks)))
              (kill_switch_registry st)), st))"

definition purge_tick :: "datetime \<Rightarrow> state \<Rightarrow> nat \<times> state" where
  \<comment> \<open>One pass of \<open>auto_purge_loop\<close>: \<open>purge_expired_logs\<close> on the table, at clock read \<open>now\<close>.\<close>
  "purge_tick now st =
     (let (n, db') = purge_expired_logs now (server_logs st)
      in (n, st\<lparr>server_logs := db'\<rparr>))"

fun run_ticks :: "real list \<Rightarrow> state \<Rightarrow> terminated list \<times> state" where
  \<comment> \<open>The monitor loop: one \<open>kill_switch_check_all\<close> per clock read, results collected.\<close>
  "run_ticks [] st = ([], st)"
| "run_ticks (now # nows) st =
     (let (term1, st1) = kill_switch_check_all now st;
          (term2, st2) = run_ticks nows st1
      in (term1 @ term2, st2))"

section \<open>States the handlers and the two background loops can produce\<close>

text \<open>
  \<open>reachable t st\<close>: the state \<open>st\<close> is produced from the empty registries by handler calls
  and loop passes, the last of them no later than time \<open>t\<close>, under a clock whose reads
  never decrease.
\<close>

inductive reachable :: "real \<Rightarrow> state \<Rightarrow> bool" where
  r_init: "reachable t \<lparr>active_sessions = [], kill_switch_registry = [], server_logs = []\<rparr>"
| r_later: "reachable t st \<Longrightarrow> t \<le> t' \<Longrightarrow> reachable t' st"
| r_connect: "reachable t st \<Longrightarrow> t \<le> n1 \<Longrightarrow> n1 \<le> n2 \<Longrightarrow>
     reachable n2 (snd (connect req sid user n1 n2 d1 d2 st))"
| r_connect_multi_hop: "reachable t st \<Longrightarrow> t \<le> n1 \<Longrightarrow> n1 \<le> n2 \<Longrightarrow>
     reachable n2 (snd (connect_multi_hop entry exit stealth ksw sid user n1 n2 d1 d2 st))"
| r_disconnect: "reachable t st \<Longrightarrow> t \<le> n \<Longrightarrow>
     reachable n (snd (disconnect sid user n rnd d1 d2 st))"
| r_enable_kill_switch: "reachable t st \<Longrightarrow> t \<le> n \<Longrightarrow>
     reachable n (snd (enable_kill_switch sid user n st))"
| r_heartbeat: "reachable t st \<Longrightarrow> t \<le> n \<Longrightarrow> reachable n (snd (heartbeat sid user n st))"
| r_check_all: "reachable t st \<Longrightarrow> t \<le> n \<Longrightarrow> reachable n (snd (kill_switch_check_all n st))"
| r_purge: "reachable t st \<Longrightarrow> reachable t (snd (purge_tick d st))"

section \<open>Functions and predicates used to state the loop's effect\<close>

text \<open>
  \<open>evaluate\<close> is the update the body of the loop in \<open>kill_switch_check_all\<close> makes to one
  enabled record, \<open>expires\<close> its test for the timeout branch, \<open>termination_entry\<close> the entry
  it appends to \<^verbatim>\<open>terminated\<close>. The predicates \<open>mem_inv\<close> and \<open>store_inv\<close> hold in every
  reachable state.
\<close>

definition ks_ok :: "real \<Rightarrow> kill_switch \<Rightarrow> bool" where
  "ks_ok t ks \<longleftrightarrow>
     enabled ks \<and> last_heartbeat ks \<le> t \<and> status_ks ks \<noteq> Triggered \<and>
     (status_ks ks = Warning \<longrightarrow> KILL_SWITCH_HEARTBEAT_INTERVAL \<le> t - last_heartbeat ks)"

definition row_ok :: "ServerLog \<Rightarrow> bool" where
  "row_ok r \<longleftrightarrow>
     \<not> is_purged r \<and> server_id r = None \<and>
     (case anonymized_region r of None \<Rightarrow> True | Some c \<Rightarrow> c \<in> srv_flag ` set SERVERS)"

definition loop_inv :: "real \<Rightarrow> check_acc \<Rightarrow> bool" where
  "loop_inv now acc \<longleftrightarrow>
     distinct (map fst (c_sessions acc)) \<and> distinct (map fst (c_registry acc)) \<and>
     (\<forall>sid ks. map_of (c_registry acc) sid = Some ks \<longrightarrow>
        enabled ks \<and> last_heartbeat ks \<le> now \<and>
        (status_ks ks = Triggered \<longrightarrow> sid \<in> set (c_expired acc)) \<and>
        (status_ks ks = Warning \<longrightarrow> KILL_SWITCH_HEARTBEAT_INTERVAL \<le> now - last_heartbeat ks)) \<and>
     (\<forall>sid. map_of (c_registry acc) sid \<noteq> None \<longrightarrow>
        map_of (c_sessions acc) sid \<noteq> None \<or> sid \<in> set (c_expired acc))"

definition evaluate :: "real \<Rightarrow> kill_switch \<Rightarrow> kill_switch" where
  "evaluate now ks =
     (let elapsed = now - last_heartbeat ks;
          missed = py_int (elapsed / KILL_SWITCH_HEARTBEAT_INTERVAL);
          ks1 = ks\<lparr>missed_heartbeats := missed\<rparr>
      in if KILL_SWITCH_TIMEOUT \<le> elapsed then ks1\<lparr>status_ks := Triggered\<rparr>
         else if 1 \<le> missed then ks1\<lparr>status_ks := Warning\<rparr> else ks1)"

definition expires :: "real \<Rightarrow> kill_switch \<Rightarrow> bool" where
  "expires now ks \<longleftrightarrow> enabled ks \<and> KILL_SWITCH_TIMEOUT \<le> now - last_heartbeat ks"

definition termination_entry :: "real \<Rightarrow> string \<Rightarrow> kill_switch \<Rightarrow> session \<Rightarrow> terminated" where
  "termination_entry now sid ks sess =
     \<lparr>t_session_id = sid, t_reason = ''heartbeat_timeout'',
      t_missed_heartbeats = py_int ((now - last_heartbeat ks) / KILL_SWITCH_HEARTBEAT_INTERVAL),
      t_elapsed_since_last_heartbeat_sec = py_round2 (now - last_heartbeat ks),
      t_server_id = s_server_id sess\<rparr>"

definition terminated_for ::
  "real \<Rightarrow> string \<Rightarrow> kill_switch \<Rightarrow> (string \<times> session) list \<Rightarrow> terminated list" where
  "terminated_for now sid ks sessions =
     (if expires now ks
      then (case map_of sessions sid of None \<Rightarrow> []
            | Some sess \<Rightarrow> [termination_entry now sid ks sess])
      else [])"

definition expired_ids :: "real \<Rightarrow> (string \<times> kill_switch) list \<Rightarrow> string list" where
  "expired_ids now items = map fst (filter (\<lambda>(k, v). expires now v) items)"

definition mem_inv :: "real \<Rightarrow> state \<Rightarrow> bool" where
  "mem_inv t st \<longleftrightarrow>
     distinct (map fst (active_sessions st)) \<and> distinct (map fst (kill_switch_registry st)) \<and>
     (\<forall>sid ks. map_of (kill_switch_registry st) sid = Some ks \<longrightarrow>
        ks_ok t ks \<and> map_of (active_sessions st) sid \<noteq> None)"

definition store_inv :: "state \<Rightarrow> bool" where
  "store_inv st \<longleftrightarrow>
     (\<forall>sid s. map_of (active_sessions st) sid = Some s \<longrightarrow> s_server s \<in> set SERVERS) \<and>
     (\<forall>r\<in>set (server_logs st). row_ok r)"


section \<open>Example states\<close>

definition ex_server :: server where
  "ex_server = \<lparr>srv_id = ''us-east-1'', srv_flag = ''US''\<rparr>"

definition ex_session :: "string \<Rightarrow> string \<Rightarrow> bool \<Rightarrow> session" where
  "ex_session sid user ksw =
     \<lparr>s_session_id = sid, s_server_id = ''us-east-1'', s_server = ex_server,
      s_protocol = ''WireGuard'', s_connected_at = 0, s_kill_switch = ksw,
      s_user_id = Some user\<rparr>"

definition ex_kill_switch :: "string \<Rightarrow> kill_switch" where
  "ex_kill_switch sid =
     \<lparr>ks_session_id = sid, enabled = True, last_heartbeat = 0,
      heartbeat_interval_sec = 10, timeout_sec = 30, missed_heartbeats = 0,
      max_missed_heartbeats = 3, status_ks = Active\<rparr>"

definition ex_row :: "datetime \<Rightarrow> ServerLog" where
  "ex_row t =
     \<lparr>event_type = ''session_start'', server_id = None, timestamp = truncate_hour t,
      duration_seconds = None, bytes_transferred = None, protocol = None,
      anonymized_region = Some ''US'', purge_after = t + 300000000, is_purged = False,
      no_logs_compliant = True\<rparr>"

definition ex_request :: "bool \<Rightarrow> ConnectRequest" where
  "ex_request ksw =
     \<lparr>req_server_id = ''us-east-1'', req_protocol = None, req_stealth_mode = None,
      req_kill_switch = Some ksw\<rparr>"

definition empty_state :: state where
  "empty_state = \<lparr>active_sessions = [], kill_switch_registry = [], server_logs = []\<rparr>"

definition ex_state :: state where
  \<comment> \<open>after one connect by alice at time 0 with the kill switch on\<close>
  "ex_state =
     \<lparr>active_sessions = [(''s1'', ex_session ''s1'' ''alice'' True)],
      kill_switch_registry = [(''s1'', ex_kill_switch ''s1'')],
      server_logs = [ex_row 0]\<rparr>"

definition ex_state_plain :: state where
  \<comment> \<open>after one connect by alice at time 0 with the kill switch off\<close>
  "ex_state_plain =
     \<lparr>active_sessions = [(''s1'', ex_session ''s1'' ''alice'' False)],
      kill_switch_registry = [],
      server_logs = [ex_row 0]\<rparr>"

definition ex_state_two :: state where
  \<comment> \<open>alice connects, then bob; the second row is written 200 seconds after the first\<close>
  "ex_state_two =
     \<lparr>active_sessions = [(''s1'', ex_session ''s1'' ''alice'' True),
                         (''s2'', ex_session ''s2'' ''bob'' True)],
      kill_switch_registry = [(''s1'', ex_kill_switch ''s1''), (''s2'', ex_kill_switch ''s2'')],
      server_logs = [ex_row 0, ex_row 200000000]\<rparr>"

definition ex_state_lingering :: state where
  \<comment> \<open>a kill-switch entry whose session is gone\<close>
  "ex_state_lingering =
     \<lparr>active_sessions = [], kill_switch_registry = [(''s1'', ex_kill_switch ''s1'')],
      server_logs = []\<rparr>"

section \<open>Lemmas about the model\<close>

lemma delete_loop_fold: "delete_loop rs (db, c) = (fold remove1 rs db, c + length rs)"
  by (induction rs arbitrary: db c) auto

lemma fold_remove1_Cons: "x \<notin> set rs \<Longrightarrow> fold remove1 rs (x # db) = x # fold remove1 rs db"
  by (induction rs arbitrary: db) auto

lemma fold_remove1_filter: "fold remove1 (filter P xs) xs = filter (\<lambda>x. \<not> P x) xs"
  by (induction xs) (auto simp: fold_remove1_Cons)

lemma purge_expired_logs_eq:
  "purge_expired_logs now db =
     (length (filter (\<lambda>l. purge_after l \<le> now \<and> \<not> is_purged l) db),
      filter (\<lambda>l. \<not> (purge_after l \<le> now \<and> \<not> is_purged l)) db)"
proof (cases "filter (\<lambda>l. purge_after l \<le> now \<and> \<not> is_purged l) db = []")
  case True
  then have "\<forall>l\<in>set db. \<not> (purge_after l \<le> now \<and> \<not> is_purged l)"
    by (simp add: filter_empty_conv)
  then have "filter (\<lambda>l. \<not> (purge_after l \<le> now \<and> \<not> is_purged l)) db = db"
    by (simp add: filter_id_conv)
  with True show ?thesis
    by (simp add: purge_expired_logs_def)
next
  case False
  then show ?thesis
    by (simp add: purge_expired_logs_def delete_loop_fold fold_remove1_filter)
qed

lemma map_of_fold_delete:
  "map_of (fold AList.delete ks al) k = (if k \<in> set ks then None else map_of al k)"
  by (induction ks arbitrary: al) (auto simp: delete_conv')

lemma distinct_fold_delete:
  "distinct (map fst al) \<Longrightarrow> distinct (map fst (fold AList.delete ks al))"
  by (induction ks arbitrary: al) (auto simp: distinct_delete)

lemma set_fold_delete: "set (fold AList.delete ks al) \<subseteq> set al"
proof (induction ks arbitrary: al)
  case Nil
  show ?case by simp
next
  case (Cons k ks)
  have "set (fold AList.delete ks (AList.delete k al)) \<subseteq> set (AList.delete k al)"
    by (rule Cons.IH)
  also have "\<dots> \<subseteq> set al"
    by (auto simp: AList.delete_eq)
  finally show ?case by simp
qed

lemma py_int_ge_1: "1 \<le> py_int (e / KILL_SWITCH_HEARTBEAT_INTERVAL) \<longleftrightarrow> KILL_SWITCH_HEARTBEAT_INTERVAL \<le> e"
  unfolding py_int_def KILL_SWITCH_HEARTBEAT_INTERVAL_def
  by (auto simp: le_floor_iff le_ceiling_iff)

lemma termination_entry_id: "t_session_id (termination_entry now sid ks sess) = sid"
  by (simp add: termination_entry_def)

lemma delete_absent: "map_of al k = None \<Longrightarrow> AList.delete k al = al"
  by (induction al) auto

lemma check_body_registry:
  "c_registry (check_body now sid ks acc) =
     (if enabled ks then AList.update sid (evaluate now ks) (c_registry acc) else c_registry acc)"
  by (simp add: check_body_def evaluate_def Let_def split: option.splits)

lemma check_body_sessions:
  "c_sessions (check_body now sid ks acc) =
     (if expires now ks then AList.delete sid (c_sessions acc) else c_sessions acc)"
  by (simp add: check_body_def expires_def Let_def delete_absent split: option.splits)

lemma check_body_expired:
  "c_expired (check_body now sid ks acc) =
     c_expired acc @ (if expires now ks then [sid] else [])"
  by (simp add: check_body_def expires_def Let_def split: option.splits)

lemma check_body_terminated:
  "c_terminated (check_body now sid ks acc) =
     c_terminated acc @ terminated_for now sid ks (c_sessions acc)"
  by (simp add: check_body_def expires_def termination_entry_def terminated_for_def Let_def
        split: option.splits)

lemma terminated_for_None: "map_of S sid = None \<Longrightarrow> terminated_for now sid ks S = []"
  by (simp add: terminated_for_def)

lemma terminated_for_Some:
  "map_of S sid = Some sess \<Longrightarrow>
   terminated_for now sid ks S = (if expires now ks then [termination_entry now sid ks sess] else [])"
  by (simp add: terminated_for_def)

lemma terminated_for_filter:
  "filter (\<lambda>e. t_session_id e = sid') (terminated_for now sid ks S) =
     (if sid' = sid then terminated_for now sid ks S else [])"
  by (cases "map_of S sid")
     (simp_all add: terminated_for_None terminated_for_Some termination_entry_id)

lemma terminated_for_ids:
  "t_session_id ` set (terminated_for now sid ks S) \<subseteq> (if expires now ks then {sid} else {})"
  by (cases "map_of S sid")
     (simp_all add: terminated_for_None terminated_for_Some termination_entry_id)

lemma terminated_for_cong:
  "map_of S sid = map_of S' sid \<Longrightarrow> terminated_for now sid ks S = terminated_for now sid ks S'"
  by (simp add: terminated_for_def)

lemma evaluate_fields:
  "enabled (evaluate now ks) = enabled ks"
  "last_heartbeat (evaluate now ks) = last_heartbeat ks"
  "ks_session_id (evaluate now ks) = ks_session_id ks"
  by (simp_all add: evaluate_def Let_def)

lemma evaluate_status:
  "status_ks (evaluate now ks) =
     (if KILL_SWITCH_TIMEOUT \<le> now - last_heartbeat ks then Triggered
      else if KILL_SWITCH_HEARTBEAT_INTERVAL \<le> now - last_heartbeat ks then Warning
      else status_ks ks)"
  by (simp add: evaluate_def Let_def py_int_ge_1)

lemma evaluate_missed:
  "missed_heartbeats (evaluate now ks) = py_int ((now - last_heartbeat ks) / KILL_SWITCH_HEARTBEAT_INTERVAL)"
  by (simp add: evaluate_def Let_def)

lemma check_body_inv:
  assumes "loop_inv now acc" and "ks_ok now ks" and "map_of (c_registry acc) sid \<noteq> None"
  shows "loop_inv now (check_body now sid ks acc)"
proof -
  have en: "enabled ks" and lh: "last_heartbeat ks \<le> now" and nt: "status_ks ks \<noteq> Triggered"
    and w: "status_ks ks = Warning \<Longrightarrow> KILL_SWITCH_HEARTBEAT_INTERVAL \<le> now - last_heartbeat ks"
    using assms(2) by (auto simp: ks_ok_def)
  have d1: "distinct (map fst (c_sessions (check_body now sid ks acc)))"
    using assms(1) by (simp add: loop_inv_def check_body_sessions distinct_delete)
  have d2: "distinct (map fst (c_registry (check_body now sid ks acc)))"
    using assms(1) by (simp add: loop_inv_def check_body_registry distinct_update)
  have r: "enabled k' \<and> last_heartbeat k' \<le> now \<and>
        (status_ks k' = Triggered \<longrightarrow> s' \<in> set (c_expired (check_body now sid ks acc))) \<and>
        (status_ks k' = Warning \<longrightarrow> KILL_SWITCH_HEARTBEAT_INTERVAL \<le> now - last_heartbeat k')"
    if "map_of (c_registry (check_body now sid ks acc)) s' = Some k'" for s' k'
  proof (cases "s' = sid")
    case True
    with that en have "k' = evaluate now ks"
      by (simp add: check_body_registry update_conv')
    then show ?thesis
      using en lh nt w True
      by (auto simp: evaluate_fields evaluate_status check_body_expired expires_def split: if_splits)
  next
    case False
    with that en have "map_of (c_registry acc) s' = Some k'"
      by (simp add: check_body_registry update_conv')
    with assms(1) have "enabled k' \<and> last_heartbeat k' \<le> now \<and>
        (status_ks k' = Triggered \<longrightarrow> s' \<in> set (c_expired acc)) \<and>
        (status_ks k' = Warning \<longrightarrow> KILL_SWITCH_HEARTBEAT_INTERVAL \<le> now - last_heartbeat k')"
      unfolding loop_inv_def by blast
    then show ?thesis
      by (simp add: check_body_expired)
  qed
  have s: "map_of (c_sessions (check_body now sid ks acc)) s' \<noteq> None \<or>
           s' \<in> set (c_expired (check_body now sid ks acc))"
    if "map_of (c_registry (check_body now sid ks acc)) s' \<noteq> None" for s'
  proof (cases "s' = sid")
    case True
    have "map_of (c_sessions acc) sid \<noteq> None \<or> sid \<in> set (c_expired acc)"
      using assms(1,3) unfolding loop_inv_def by blast
    with True show ?thesis
      by (auto simp: check_body_sessions check_body_expired delete_conv')
  next
    case False
    with that en have "map_of (c_registry acc) s' \<noteq> None"
      by (simp add: check_body_registry update_conv')
    with assms(1) have "map_of (c_sessions acc) s' \<noteq> None \<or> s' \<in> set (c_expired acc)"
      unfolding loop_inv_def by blast
    with False show ?thesis
      by (auto simp: check_body_sessions check_body_expired delete_conv')
  qed
  show ?thesis
    unfolding loop_inv_def using d1 d2 r s by blast
qed

lemma check_body_registry_dom:
  "map_of (c_registry acc) k \<noteq> None \<Longrightarrow> map_of (c_registry (check_body now sid ks acc)) k \<noteq> None"
  by (simp add: check_body_registry update_conv')

lemma check_loop_inv:
  "loop_inv now acc \<Longrightarrow>
   \<forall>(sid, ks)\<in>set items. ks_ok now ks \<and> map_of (c_registry acc) sid \<noteq> None \<Longrightarrow>
   loop_inv now (check_loop now items acc)"
proof (induction items arbitrary: acc)
  case Nil
  then show ?case by simp
next
  case (Cons item items)
  obtain sid ks where item: "item = (sid, ks)" by (cases item)
  have "ks_ok now ks" and "map_of (c_registry acc) sid \<noteq> None"
    using Cons.prems(2) item by auto
  then have "loop_inv now (check_body now sid ks acc)"
    by (rule check_body_inv [OF Cons.prems(1)])
  moreover have "\<forall>(s, k)\<in>set items. ks_ok now k \<and> map_of (c_registry (check_body now sid ks acc)) s \<noteq> None"
  proof (clarify, rule conjI)
    fix s k assume m: "(s, k) \<in> set items"
    then show "ks_ok now k" using Cons.prems(2) by auto
    from m have "map_of (c_registry acc) s \<noteq> None" using Cons.prems(2) by auto
    then show "map_of (c_registry (check_body now sid ks acc)) s \<noteq> None"
      by (rule check_body_registry_dom)
  qed
  ultimately show ?case
    using Cons.IH item by simp
qed

lemma expired_ids_simps:
  "expired_ids now [] = []"
  "expired_ids now ((k, v) # items) = (if expires now v then k # expired_ids now items else expired_ids now items)"
  by (simp_all add: expired_ids_def)

lemma expired_ids_subset: "set (expired_ids now items) \<subseteq> fst ` set items"
  by (auto simp: expired_ids_def)

lemma check_loop_expired:
  "c_expired (check_loop now items acc) = c_expired acc @ expired_ids now items"
  by (induction items arbitrary: acc) (auto simp: check_body_expired expired_ids_simps)

lemma check_loop_sessions:
  "map_of (c_sessions (check_loop now items acc)) sid =
     (if sid \<in> set (expired_ids now items) then None else map_of (c_sessions acc) sid)"
proof (induction items arbitrary: acc)
  case Nil
  show ?case by (simp add: expired_ids_simps)
next
  case (Cons item items)
  obtain k v where item: "item = (k, v)" by (cases item)
  have "map_of (c_sessions (check_loop now (item # items) acc)) sid =
        (if sid \<in> set (expired_ids now items) then None
         else map_of (c_sessions (check_body now k v acc)) sid)"
    using Cons.IH [of "check_body now k v acc"] item by simp
  also have "\<dots> = (if sid \<in> set (expired_ids now (item # items)) then None
                   else map_of (c_sessions acc) sid)"
    by (cases "expires now v")
       (simp_all add: item check_body_sessions expired_ids_simps delete_conv')
  finally show ?case .
qed

lemma check_loop_sessions_distinct:
  "distinct (map fst (c_sessions acc)) \<Longrightarrow> distinct (map fst (c_sessions (check_loop now items acc)))"
  by (induction items arbitrary: acc) (auto simp: check_body_sessions distinct_delete)

lemma check_loop_registry:
  "distinct (map fst items) \<Longrightarrow>
   map_of (c_registry (check_loop now items acc)) sid =
     (case map_of items sid of
        None \<Rightarrow> map_of (c_registry acc) sid
      | Some ks \<Rightarrow> if enabled ks then Some (evaluate now ks) else map_of (c_registry acc) sid)"
proof (induction items arbitrary: acc)
  case Nil
  show ?case by simp
next
  case (Cons item items)
  obtain k v where item: "item = (k, v)" by (cases item)
  have d: "distinct (map fst items)" and nk: "map_of items k = None"
    using Cons.prems item by (auto simp: map_of_eq_None_iff)
  show ?case
  proof (cases "sid = k")
    case True
    then show ?thesis
      using Cons.IH [OF d, of "check_body now k v acc"] nk item
      by (simp add: check_body_registry update_conv')
  next
    case False
    then show ?thesis
      using Cons.IH [OF d, of "check_body now k v acc"] item
      by (simp add: check_body_registry update_conv' split: option.splits)
  qed
qed

lemma check_loop_registry_keys:
  "fst ` set (c_registry (check_loop now items acc)) \<subseteq> fst ` set (c_registry acc) \<union> fst ` set items"
proof (induction items arbitrary: acc)
  case Nil
  show ?case by simp
next
  case (Cons item items)
  obtain k v where item: "item = (k, v)" by (cases item)
  have body: "fst ` set (c_registry (check_body now k v acc)) \<subseteq> insert k (fst ` set (c_registry acc))"
    by (simp add: check_body_registry dom_update subset_insertI)
  have step: "fst ` set (c_registry (check_loop now items (check_body now k v acc))) \<subseteq>
        fst ` set (c_registry (check_body now k v acc)) \<union> fst ` set items"
    by (rule Cons.IH)
  have "fst ` set (c_registry (check_loop now items (check_body now k v acc))) \<subseteq>
        insert k (fst ` set (c_registry acc)) \<union> fst ` set items"
    using step body by blast
  then show ?case
    by (simp add: item)
qed

lemma check_loop_terminated:
  "distinct (map fst items) \<Longrightarrow>
   filter (\<lambda>e. t_session_id e = sid) (c_terminated (check_loop now items acc)) =
     filter (\<lambda>e. t_session_id e = sid) (c_terminated acc) @
       (case map_of items sid of
          None \<Rightarrow> []
        | Some ks \<Rightarrow> terminated_for now sid ks (c_sessions acc))"
proof (induction items arbitrary: acc)
  case Nil
  show ?case by simp
next
  case (Cons item items)
  obtain k v where item: "item = (k, v)" by (cases item)
  have d: "distinct (map fst items)" and nk: "map_of items k = None"
    using Cons.prems item by (auto simp: map_of_eq_None_iff)
  show ?case
  proof (cases "sid = k")
    case True
    then show ?thesis
      using Cons.IH [OF d, of "check_body now k v acc"] nk item
      by (simp add: check_body_terminated terminated_for_filter)
  next
    case False
    then have "map_of (c_sessions (check_body now k v acc)) sid = map_of (c_sessions acc) sid"
      by (simp add: check_body_sessions delete_conv')
    then have "terminated_for now sid ks' (c_sessions (check_body now k v acc)) =
               terminated_for now sid ks' (c_sessions acc)" for ks'
      by (rule terminated_for_cong)
    then show ?thesis
      using Cons.IH [OF d, of "check_body now k v acc"] item False
      by (cases "map_of items sid") (simp_all add: check_body_terminated terminated_for_filter)
  qed
qed

lemma check_loop_terminated_ids:
  "t_session_id ` set (c_terminated (check_loop now items acc)) \<subseteq>
     t_session_id ` set (c_terminated acc) \<union> set (expired_ids now items)"
proof (induction items arbitrary: acc)
  case Nil
  show ?case by simp
next
  case (Cons item items)
  obtain k v where item: "item = (k, v)" by (cases item)
  have body: "t_session_id ` set (c_terminated (check_body now k v acc)) \<subseteq>
        t_session_id ` set (c_terminated acc) \<union> (if expires now v then {k} else {})"
    using terminated_for_ids [of now k v "c_sessions acc"]
    by (simp add: check_body_terminated image_Un le_supI2)
  have step: "t_session_id ` set (c_terminated (check_loop now items (check_body now k v acc))) \<subseteq>
        t_session_id ` set (c_terminated (check_body now k v acc)) \<union> set (expired_ids now items)"
    by (rule Cons.IH)
  have ids: "(if expires now v then {k} else {}) \<union> set (expired_ids now items) =
        set (expired_ids now (item # items))"
    by (simp add: item expired_ids_simps)
  have "t_session_id ` set (c_terminated (check_loop now items (check_body now k v acc))) \<subseteq>
        t_session_id ` set (c_terminated acc) \<union> set (expired_ids now (item # items))"
    using step body unfolding ids [symmetric] by blast
  then show ?case
    by (simp add: item)
qed

lemma expired_ids_iff:
  "distinct (map fst items) \<Longrightarrow>
   sid \<in> set (expired_ids now items) \<longleftrightarrow> (\<exists>ks. map_of items sid = Some ks \<and> expires now ks)"
  by (force simp: expired_ids_def)

lemma check_scan_expired: "c_expired (check_scan now st) = expired_ids now (kill_switch_registry st)"
  by (simp add: check_scan_def check_loop_expired)

lemma check_all_sessions:
  "map_of (active_sessions (snd (kill_switch_check_all now st))) sid =
     (if sid \<in> set (expired_ids now (kill_switch_registry st)) then None
      else map_of (active_sessions st) sid)"
  by (simp add: kill_switch_check_all_def Let_def check_scan_def check_loop_sessions)

lemma check_all_registry:
  assumes "distinct (map fst (kill_switch_registry st))"
  shows "map_of (kill_switch_registry (snd (kill_switch_check_all now st))) sid =
     (case map_of (kill_switch_registry st) sid of
        None \<Rightarrow> None
      | Some ks \<Rightarrow> if expires now ks then None
                   else if enabled ks then Some (evaluate now ks) else Some ks)"
proof -
  have "map_of (kill_switch_registry (snd (kill_switch_check_all now st))) sid =
        (if sid \<in> set (expired_ids now (kill_switch_registry st)) then None
         else map_of (c_registry (check_scan now st)) sid)"
    by (simp add: kill_switch_check_all_def Let_def map_of_fold_delete check_scan_expired)
  also have "\<dots> = (case map_of (kill_switch_registry st) sid of
        None \<Rightarrow> None
      | Some ks \<Rightarrow> if expires now ks then None
                   else if enabled ks then Some (evaluate now ks) else Some ks)"
    using assms
    by (cases "map_of (kill_switch_registry st) sid")
       (simp_all add: expired_ids_iff check_scan_def check_loop_registry del: map_of_eq_Some_iff)
  finally show ?thesis .
qed

lemma check_all_logs: "server_logs (snd (kill_switch_check_all now st)) = server_logs st"
  by (simp add: kill_switch_check_all_def Let_def)

lemma check_all_terminated:
  "distinct (map fst (kill_switch_registry st)) \<Longrightarrow>
   filter (\<lambda>e. t_session_id e = sid) (fst (kill_switch_check_all now st)) =
     (case map_of (kill_switch_registry st) sid of
        None \<Rightarrow> []
      | Some ks \<Rightarrow> terminated_for now sid ks (active_sessions st))"
  by (cases "map_of (kill_switch_registry st) sid")
     (simp_all add: kill_switch_check_all_def Let_def check_scan_def check_loop_terminated
        del: map_of_eq_Some_iff)

lemma check_all_terminated_ids:
  "t_session_id ` set (fst (kill_switch_check_all now st)) \<subseteq>
     set (expired_ids now (kill_switch_registry st))"
  using check_loop_terminated_ids [of now "kill_switch_registry st"
      "\<lparr>c_sessions = active_sessions st, c_registry = kill_switch_registry st,
        c_terminated = [], c_expired = []\<rparr>"]
  by (simp add: kill_switch_check_all_def Let_def check_scan_def)

lemma check_all_registry_keys:
  "fst ` set (kill_switch_registry (snd (kill_switch_check_all now st))) \<subseteq>
     fst ` set (kill_switch_registry st)"
proof -
  have "set (kill_switch_registry (snd (kill_switch_check_all now st))) \<subseteq>
        set (c_registry (check_scan now st))"
    by (simp add: kill_switch_check_all_def Let_def set_fold_delete)
  moreover have "fst ` set (c_registry (check_scan now st)) \<subseteq> fst ` set (kill_switch_registry st)"
    using check_loop_registry_keys [of now "kill_switch_registry st"
      "\<lparr>c_sessions = active_sessions st, c_registry = kill_switch_registry st,
        c_terminated = [], c_expired = []\<rparr>"]
    by (simp add: check_scan_def)
  ultimately show ?thesis by blast
qed

lemma check_all_distinct:
  "distinct (map fst (active_sessions st)) \<Longrightarrow>
   distinct (map fst (active_sessions (snd (kill_switch_check_all now st))))"
  by (simp add: kill_switch_check_all_def Let_def check_scan_def check_loop_sessions_distinct)

lemma ks_ok_mono: "ks_ok t ks \<Longrightarrow> t \<le> t' \<Longrightarrow> ks_ok t' ks"
  by (auto simp: ks_ok_def)

lemma mem_inv_later: "mem_inv t st \<Longrightarrow> t \<le> t' \<Longrightarrow> mem_inv t' st"
  unfolding mem_inv_def by (blast intro: ks_ok_mono)

lemma check_all_mem_inv:
  assumes "mem_inv t st" and "t \<le> n"
  shows "mem_inv n (snd (kill_switch_check_all n st))"
proof -
  let ?acc0 = "\<lparr>c_sessions = active_sessions st, c_registry = kill_switch_registry st,
        c_terminated = [], c_expired = []\<rparr>"
  have inv: "mem_inv n st" using assms by (rule mem_inv_later)
  have d: "distinct (map fst (kill_switch_registry st))"
    using inv by (simp add: mem_inv_def)
  have ok: "ks_ok n ks \<and> map_of (active_sessions st) sid \<noteq> None"
    if "map_of (kill_switch_registry st) sid = Some ks" for sid ks
    using inv that unfolding mem_inv_def by blast
  have li0: "loop_inv n ?acc0"
    unfolding loop_inv_def using inv ok
    by (auto simp: mem_inv_def ks_ok_def simp del: map_of_eq_Some_iff)
  have items: "\<forall>(sid, ks)\<in>set (kill_switch_registry st). ks_ok n ks \<and> map_of (c_registry ?acc0) sid \<noteq> None"
    using d ok by auto
  have li: "loop_inv n (check_scan n st)"
    unfolding check_scan_def by (rule check_loop_inv [OF li0 items])
  have d1: "distinct (map fst (active_sessions (snd (kill_switch_check_all n st))))"
    using inv by (simp add: mem_inv_def check_all_distinct)
  have d2: "distinct (map fst (kill_switch_registry (snd (kill_switch_check_all n st))))"
    using li by (simp add: kill_switch_check_all_def Let_def loop_inv_def distinct_fold_delete)
  have r: "ks_ok n ks \<and> map_of (active_sessions (snd (kill_switch_check_all n st))) sid \<noteq> None"
    if m: "map_of (kill_switch_registry (snd (kill_switch_check_all n st))) sid = Some ks" for sid ks
  proof -
    from m have ne: "sid \<notin> set (c_expired (check_scan n st))"
      and mr: "map_of (c_registry (check_scan n st)) sid = Some ks"
      by (auto simp: kill_switch_check_all_def Let_def map_of_fold_delete split: if_splits)
    from li mr have p: "enabled ks \<and> last_heartbeat ks \<le> n \<and>
        (status_ks ks = Triggered \<longrightarrow> sid \<in> set (c_expired (check_scan n st))) \<and>
        (status_ks ks = Warning \<longrightarrow> KILL_SWITCH_HEARTBEAT_INTERVAL \<le> n - last_heartbeat ks)"
      unfolding loop_inv_def by blast
    from li mr have q: "map_of (c_sessions (check_scan n st)) sid \<noteq> None \<or>
        sid \<in> set (c_expired (check_scan n st))"
      unfolding loop_inv_def by blast
    from p ne have "ks_ok n ks" by (auto simp: ks_ok_def)
    moreover from q ne have "map_of (active_sessions (snd (kill_switch_check_all n st))) sid \<noteq> None"
      by (simp add: kill_switch_check_all_def Let_def)
    ultimately show ?thesis ..
  qed
  show ?thesis
    unfolding mem_inv_def using d1 d2 r by blast
qed

lemma create_minimal_log_snd:
  "snd (create_minimal_log db ev sa dur b p region c1 c2) =
     db @ [fst (create_minimal_log db ev sa dur b p region c1 c2)]"
  by (simp add: create_minimal_log_def Let_def)

lemma catalog_flag:
  "srv \<in> set SERVERS \<Longrightarrow> py_upper (take 2 (srv_flag srv)) = srv_flag srv \<and> length (srv_flag srv) = 2"
  by (auto simp: SERVERS_def py_upper_def char_upper_def)

lemma create_minimal_log_region:
  "srv \<in> set SERVERS \<Longrightarrow>
   anonymized_region (fst (create_minimal_log db ev sa dur b p (Some (srv_flag srv)) c1 c2)) =
     Some (srv_flag srv)"
  using catalog_flag [of srv] by (auto simp: create_minimal_log_def Let_def)

lemma create_minimal_log_row_ok:
  assumes "region = None \<or> (\<exists>srv\<in>set SERVERS. region = Some (srv_flag srv))"
  shows "row_ok (fst (create_minimal_log db ev sa dur b p region c1 c2))"
proof -
  have f: "\<not> is_purged (fst (create_minimal_log db ev sa dur b p region c1 c2))"
    "server_id (fst (create_minimal_log db ev sa dur b p region c1 c2)) = None"
    by (simp_all add: create_minimal_log_def Let_def)
  from assms show ?thesis
  proof
    assume "region = None"
    then have "anonymized_region (fst (create_minimal_log db ev sa dur b p region c1 c2)) = None"
      by (simp add: create_minimal_log_def Let_def)
    with f show ?thesis by (simp add: row_ok_def)
  next
    assume "\<exists>srv\<in>set SERVERS. region = Some (srv_flag srv)"
    then obtain srv where srv: "srv \<in> set SERVERS" "region = Some (srv_flag srv)" by blast
    then have "anonymized_region (fst (create_minimal_log db ev sa dur b p region c1 c2)) =
        Some (srv_flag srv)"
      by (simp add: create_minimal_log_region)
    with f srv show ?thesis by (simp add: row_ok_def)
  qed
qed

lemma kill_switch_register_lookup:
  "map_of (kill_switch_register sid True now reg) k =
     (if k = sid then Some \<lparr>ks_session_id = sid, enabled = True, last_heartbeat = now,
              heartbeat_interval_sec = KILL_SWITCH_HEARTBEAT_INTERVAL,
              timeout_sec = KILL_SWITCH_TIMEOUT, missed_heartbeats = 0,
              max_missed_heartbeats = 3, status_ks = Active\<rparr>
      else map_of reg k)"
  by (simp add: kill_switch_register_def update_conv')

lemma kill_switch_register_distinct:
  "distinct (map fst reg) \<Longrightarrow> distinct (map fst (kill_switch_register sid en now reg))"
  by (simp add: kill_switch_register_def distinct_update)

lemma connect_mem_inv:
  assumes "mem_inv t st" and "t \<le> n1" and "n1 \<le> n2"
  shows "mem_inv n2 (snd (connect req sid user n1 n2 d1 d2 st))"
proof -
  have inv: "mem_inv n2 st" using assms by (auto intro: mem_inv_later)
  then show ?thesis
    unfolding mem_inv_def connect_def Let_def
    by (auto simp: update_conv' distinct_update kill_switch_register_lookup
          kill_switch_register_distinct ks_ok_def
          simp del: map_of_eq_Some_iff split: option.splits prod.splits if_splits)
qed

lemma connect_multi_hop_mem_inv:
  assumes "mem_inv t st" and "t \<le> n1" and "n1 \<le> n2"
  shows "mem_inv n2 (snd (connect_multi_hop entry exit stealth ksw sid user n1 n2 d1 d2 st))"
proof -
  have inv: "mem_inv n2 st" using assms by (auto intro: mem_inv_later)
  then show ?thesis
    unfolding mem_inv_def connect_multi_hop_def Let_def
    by (auto simp: update_conv' distinct_update kill_switch_register_lookup
          kill_switch_register_distinct ks_ok_def
          simp del: map_of_eq_Some_iff split: option.splits prod.splits if_splits)
qed

lemma disconnect_mem_inv:
  assumes "mem_inv t st" and "t \<le> n"
  shows "mem_inv n (snd (disconnect sid user n rnd d1 d2 st))"
proof -
  have inv: "mem_inv n st" using assms by (rule mem_inv_later)
  then show ?thesis
    unfolding mem_inv_def disconnect_def Let_def
    by (auto simp: delete_conv' distinct_delete
          simp del: map_of_eq_Some_iff split: option.splits prod.splits if_splits)
qed

lemma enable_kill_switch_mem_inv:
  assumes "mem_inv t st" and "t \<le> n"
  shows "mem_inv n (snd (enable_kill_switch sid user n st))"
proof -
  have inv: "mem_inv n st" using assms by (rule mem_inv_later)
  then show ?thesis
    unfolding mem_inv_def enable_kill_switch_def Let_def
    by (auto simp: update_conv' distinct_update kill_switch_register_lookup
          kill_switch_register_distinct ks_ok_def
          simp del: map_of_eq_Some_iff split: option.splits prod.splits if_splits)
qed

lemma heartbeat_mem_inv:
  assumes "mem_inv t st" and "t \<le> n"
  shows "mem_inv n (snd (heartbeat sid user n st))"
proof -
  have inv: "mem_inv n st" using assms by (rule mem_inv_later)
  then show ?thesis
    unfolding mem_inv_def heartbeat_def kill_switch_heartbeat_def Let_def
    by (auto simp: update_conv' delete_conv' distinct_update distinct_delete ks_ok_def
          simp del: map_of_eq_Some_iff split: option.splits prod.splits if_splits sum.splits)
qed

lemma purge_tick_frame:
  "active_sessions (snd (purge_tick d st)) = active_sessions st"
  "kill_switch_registry (snd (purge_tick d st)) = kill_switch_registry st"
  by (simp_all add: purge_tick_def split: prod.splits)

lemma purge_tick_mem_inv: "mem_inv t st \<Longrightarrow> mem_inv t (snd (purge_tick d st))"
  unfolding mem_inv_def purge_tick_frame .

lemma reachable_mem_inv: "reachable t st \<Longrightarrow> mem_inv t st"
proof (induction rule: reachable.induct)
  case (r_init t)
  show ?case by (simp add: mem_inv_def)
next
  case (r_later t st t')
  then show ?case by (auto intro: mem_inv_later)
next
  case (r_connect t st n1 n2 req sid user d1 d2)
  then show ?case by (auto intro: connect_mem_inv)
next
  case (r_connect_multi_hop t st n1 n2 entry exit stealth ksw sid user d1 d2)
  then show ?case by (auto intro: connect_multi_hop_mem_inv)
next
  case (r_disconnect t st n sid user rnd d1 d2)
  then show ?case by (auto intro: disconnect_mem_inv)
next
  case (r_enable_kill_switch t st n sid user)
  then show ?case by (auto intro: enable_kill_switch_mem_inv)
next
  case (r_heartbeat t st n sid user)
  then show ?case by (auto intro: heartbeat_mem_inv)
next
  case (r_check_all t st n)
  then show ?case by (auto intro: check_all_mem_inv)
next
  case (r_purge t st d)
  then show ?case by (auto intro: purge_tick_mem_inv)
qed

lemma find_in_set: "find P xs = Some x \<Longrightarrow> x \<in> set xs"
  by (auto simp: find_Some_iff)

lemma connect_store_inv:
  assumes "store_inv st"
  shows "store_inv (snd (connect req sid user n1 n2 d1 d2 st))"
proof (cases "find (\<lambda>s. srv_id s = req_server_id req) SERVERS")
  case None
  with assms show ?thesis by (simp add: connect_def)
next
  case (Some srv)
  then have srv: "srv \<in> set SERVERS" by (rule find_in_set)
  then have "row_ok (fst (create_minimal_log (server_logs st) ''session_start'' None None None
                    (req_protocol req) (Some (srv_flag srv)) d1 d2))"
    by (auto intro: create_minimal_log_row_ok)
  with assms Some srv show ?thesis
    unfolding store_inv_def connect_def Let_def
    by (auto simp: update_conv' create_minimal_log_snd split_beta
          simp del: map_of_eq_Some_iff split: if_splits)
qed

lemma connect_multi_hop_store_inv:
  assumes "store_inv st"
  shows "store_inv (snd (connect_multi_hop entry exit stealth ksw sid user n1 n2 d1 d2 st))"
proof (cases "find (\<lambda>s. srv_id s = exit) SERVERS")
  case None
  with assms show ?thesis by (simp add: connect_multi_hop_def split: option.splits)
next
  case (Some srv)
  then have srv: "srv \<in> set SERVERS" by (rule find_in_set)
  have "row_ok (fst (create_minimal_log (server_logs st) ''multi_hop_session_start'' None None
                        None (Some ''WireGuard (Double-encrypted)'') None d1 d2))"
    by (auto intro: create_minimal_log_row_ok)
  with assms Some srv show ?thesis
    unfolding store_inv_def connect_multi_hop_def Let_def
    by (auto simp: update_conv' create_minimal_log_snd split_beta
          simp del: map_of_eq_Some_iff split: if_splits option.splits)
qed

lemma disconnect_store_inv:
  assumes "store_inv st"
  shows "store_inv (snd (disconnect sid user n rnd d1 d2 st))"
proof (cases "map_of (active_sessions st) sid")
  case None
  with assms show ?thesis by (simp add: disconnect_def)
next
  case (Some sess)
  with assms have srv: "s_server sess \<in> set SERVERS"
    unfolding store_inv_def by blast
  then have "row_ok (fst (create_minimal_log (server_logs st) ''session_end'' None
       (Some (py_int (n - s_connected_at sess))) (Some (py_int (n - s_connected_at sess) * rnd))
       (Some (s_protocol sess)) (Some (srv_flag (s_server sess))) d1 d2))"
    by (auto intro: create_minimal_log_row_ok)
  with assms Some show ?thesis
    unfolding store_inv_def disconnect_def Let_def
    by (auto simp: delete_conv' create_minimal_log_snd split_beta
          simp del: map_of_eq_Some_iff split: if_splits)
qed

lemma enable_kill_switch_store_inv:
  "store_inv st \<Longrightarrow> store_inv (snd (enable_kill_switch sid user n st))"
  unfolding store_inv_def enable_kill_switch_def Let_def
  by (auto simp: update_conv' simp del: map_of_eq_Some_iff split: option.splits if_splits)

lemma heartbeat_store_inv:
  "store_inv st \<Longrightarrow> store_inv (snd (heartbeat sid user n st))"
  unfolding store_inv_def heartbeat_def Let_def
  by (auto simp del: map_of_eq_Some_iff split: option.splits if_splits prod.splits sum.splits)

lemma check_all_store_inv:
  "store_inv st \<Longrightarrow> store_inv (snd (kill_switch_check_all n st))"
  unfolding store_inv_def check_all_logs check_all_sessions
  by (auto split: if_splits)

lemma purge_tick_logs:
  "server_logs (snd (purge_tick d st)) =
     filter (\<lambda>l. \<not> (purge_after l \<le> d \<and> \<not> is_purged l)) (server_logs st)"
  by (simp add: purge_tick_def purge_expired_logs_eq)

lemma purge_tick_store_inv:
  "store_inv st \<Longrightarrow> store_inv (snd (purge_tick d st))"
  unfolding store_inv_def purge_tick_frame purge_tick_logs
  by auto

lemma reachable_store_inv: "reachable t st \<Longrightarrow> store_inv st"
proof (induction rule: reachable.induct)
  case (r_init t)
  show ?case by (simp add: store_inv_def)
next
  case (r_later t st t')
  then show ?case by simp
next
  case (r_connect t st n1 n2 req sid user d1 d2)
  then show ?case by (auto intro: connect_store_inv)
next
  case (r_connect_multi_hop t st n1 n2 entry exit stealth ksw sid user d1 d2)
  then show ?case by (auto intro: connect_multi_hop_store_inv)
next
  case (r_disconnect t st n sid user rnd d1 d2)
  then show ?case by (auto intro: disconnect_store_inv)
next
  case (r_enable_kill_switch t st n sid user)
  then show ?case by (auto intro: enable_kill_switch_store_inv)
next
  case (r_heartbeat t st n sid user)
  then show ?case by (auto intro: heartbeat_store_inv)
next
  case (r_check_all t st n)
  then show ?case by (auto intro: check_all_store_inv)
next
  case (r_purge t st d)
  then show ?case by (auto intro: purge_tick_store_inv)
qed

lemma run_ticks_logs: "server_logs (snd (run_ticks nows st)) = server_logs st"
  by (induction nows arbitrary: st) (simp_all add: split_beta check_all_logs)

lemma run_ticks_sessions_none:
  "map_of (active_sessions st) sid = None \<Longrightarrow>
   map_of (active_sessions (snd (run_ticks nows st))) sid = None"
  by (induction nows arbitrary: st) (simp_all add: split_beta check_all_sessions)

lemma run_ticks_registry_keys:
  "sid \<notin> fst ` set (kill_switch_registry st) \<Longrightarrow>
   sid \<notin> fst ` set (kill_switch_registry (snd (run_ticks nows st)))"
proof (induction nows arbitrary: st)
  case Nil
  then show ?case by simp
next
  case (Cons now nows)
  have "sid \<notin> fst ` set (kill_switch_registry (snd (kill_switch_check_all now st)))"
    using Cons.prems check_all_registry_keys [of now st] by blast
  then show ?case
    using Cons.IH by (simp add: split_beta)
qed

lemma run_ticks_no_termination:
  "sid \<notin> fst ` set (kill_switch_registry st) \<Longrightarrow>
   sid \<notin> t_session_id ` set (fst (run_ticks nows st))"
proof (induction nows arbitrary: st)
  case Nil
  then show ?case by simp
next
  case (Cons now nows)
  have a: "sid \<notin> t_session_id ` set (fst (kill_switch_check_all now st))"
    using Cons.prems check_all_terminated_ids [of now st]
      expired_ids_subset [of now "kill_switch_registry st"] by blast
  have "sid \<notin> fst ` set (kill_switch_registry (snd (kill_switch_check_all now st)))"
    using Cons.prems check_all_registry_keys [of now st] by blast
  then have b: "sid \<notin> t_session_id ` set (fst (run_ticks nows (snd (kill_switch_check_all now st))))"
    by (rule Cons.IH)
  show ?case
    using a b by (simp add: split_beta image_Un)
qed

lemma not_in_keys: "sid \<notin> fst ` set al \<longleftrightarrow> map_of al sid = None"
  by (simp add: map_of_eq_None_iff)

lemma filter_id_none: "sid \<notin> t_session_id ` set xs \<Longrightarrow> filter (\<lambda>e. t_session_id e = sid) xs = []"
  by (induction xs) auto

lemma tick_removes:
  assumes d: "distinct (map fst (kill_switch_registry st))"
    and s: "map_of (active_sessions st) sid = Some sess"
    and k: "map_of (kill_switch_registry st) sid = Some ks"
    and e: "enabled ks" and x: "KILL_SWITCH_TIMEOUT \<le> now - last_heartbeat ks"
  shows "map_of (active_sessions (snd (kill_switch_check_all now st))) sid = None"
    and "map_of (kill_switch_registry (snd (kill_switch_check_all now st))) sid = None"
    and "filter (\<lambda>e. t_session_id e = sid) (fst (kill_switch_check_all now st)) =
           [termination_entry now sid ks sess]"
    and "map_of (c_registry (check_scan now st)) sid = Some (evaluate now ks)"
proof -
  have ex: "expires now ks" using e x by (simp add: expires_def)
  then have m: "sid \<in> set (expired_ids now (kill_switch_registry st))"
    using d k by (simp add: expired_ids_iff del: map_of_eq_Some_iff)
  show "map_of (active_sessions (snd (kill_switch_check_all now st))) sid = None"
    using m by (simp add: check_all_sessions)
  show "map_of (kill_switch_registry (snd (kill_switch_check_all now st))) sid = None"
    using d k ex by (simp add: check_all_registry del: map_of_eq_Some_iff)
  show "filter (\<lambda>e. t_session_id e = sid) (fst (kill_switch_check_all now st)) =
           [termination_entry now sid ks sess]"
    using d k ex s by (simp add: check_all_terminated terminated_for_Some del: map_of_eq_Some_iff)
  show "map_of (c_registry (check_scan now st)) sid = Some (evaluate now ks)"
    using d k e by (simp add: check_scan_def check_loop_registry del: map_of_eq_Some_iff)
qed

lemma disconnect_absent:
  "map_of (active_sessions st) sid = None \<Longrightarrow>
   disconnect sid user n rnd d1 d2 st = (Inl (HTTPException 404 ''Session not found''), st)"
  by (simp add: disconnect_def)

lemma disconnect_present:
  assumes "map_of (active_sessions st) sid = Some sess"
  shows "fst (disconnect sid user n rnd d1 d2 st) =
           Inr \<lparr>d_status = ''disconnected'', d_session_id = sid,
                d_uptime_seconds = py_int (n - s_connected_at sess)\<rparr>"
    and "active_sessions (snd (disconnect sid user n rnd d1 d2 st)) =
           AList.delete sid (active_sessions st)"
    and "kill_switch_registry (snd (disconnect sid user n rnd d1 d2 st)) =
           AList.delete sid (kill_switch_registry st)"
    and "server_logs (snd (disconnect sid user n rnd d1 d2 st)) =
           server_logs st @
           [fst (create_minimal_log (server_logs st) ''session_end'' None
              (Some (py_int (n - s_connected_at sess)))
              (Some (py_int (n - s_connected_at sess) * rnd))
              (Some (s_protocol sess)) (Some (srv_flag (s_server sess))) d1 d2)]"
  using assms by (simp_all add: disconnect_def Let_def split_beta create_minimal_log_snd)

lemma delete_keys_notin: "sid \<notin> fst ` set (AList.delete sid al)"
  by (rule delete_notin_dom)

lemmas ex_defs = ex_server_def ex_session_def ex_kill_switch_def ex_row_def ex_request_def
  empty_state_def ex_state_def ex_state_plain_def ex_state_two_def ex_state_lingering_def

lemmas model_consts = KILL_SWITCH_HEARTBEAT_INTERVAL_def KILL_SWITCH_TIMEOUT_def
  NO_LOGS_RETENTION_MINUTES_def timedelta_minutes_def truncate_hour_def SERVERS_def
  STEALTH_PROTOCOLS_def truthy_def py_upper_def char_upper_def

lemma ex_state_connect:
  "ex_state = snd (connect (ex_request True) ''s1'' ''alice'' 0 0 0 0 empty_state)"
  by (simp add: connect_def create_minimal_log_def kill_switch_register_def ex_defs model_consts Let_def split_beta)

lemma ex_state_plain_connect:
  "ex_state_plain = snd (connect (ex_request False) ''s1'' ''alice'' 0 0 0 0 empty_state)"
  by (simp add: connect_def create_minimal_log_def kill_switch_register_def ex_defs model_consts Let_def split_beta)

lemma ex_state_two_connect:
  "ex_state_two = snd (connect (ex_request True) ''s2'' ''bob'' 0 0 200000000 200000000 ex_state)"
  by (simp add: connect_def create_minimal_log_def kill_switch_register_def ex_defs model_consts Let_def split_beta)

lemma reachable_empty: "reachable 0 empty_state"
  unfolding empty_state_def by (rule r_init)

lemma reachable_ex_state: "reachable 0 ex_state"
  unfolding ex_state_connect by (rule r_connect [OF reachable_empty]) simp_all

lemma reachable_ex_state_plain: "reachable 0 ex_state_plain"
  unfolding ex_state_plain_connect by (rule r_connect [OF reachable_empty]) simp_all

lemma reachable_ex_state_two: "reachable 0 ex_state_two"
  unfolding ex_state_two_connect by (rule r_connect [OF reachable_ex_state]) simp_all

lemma create_minimal_log_clock_reads:
  "snd (create_minimal_log db ev sa dur b p r clock1 clock2) =
     db @ [fst (create_minimal_log db ev sa dur b p r clock1 clock2)] \<and>
   timestamp (fst (create_minimal_log db ev sa dur b p r clock1 clock2)) = truncate_hour clock2 \<and>
   purge_after (fst (create_minimal_log db ev sa dur b p r clock1 clock2)) =
     clock1 + NO_LOGS_RETENTION_MINUTES * 60000000"
  by (simp add: create_minimal_log_def Let_def timedelta_minutes_def)

lemma reachable_rows_not_purged:
  "reachable t st \<Longrightarrow> r \<in> set (server_logs st) \<Longrightarrow> \<not> is_purged r"
  using reachable_store_inv [of t st] by (auto simp: store_inv_def row_ok_def)

lemma purge_reachable:
  assumes "reachable t st"
  shows "purge_expired_logs now (server_logs st) =
           (length (filter (\<lambda>r. purge_after r \<le> now) (server_logs st)),
            filter (\<lambda>r. now < purge_after r) (server_logs st))"
proof -
  have np: "\<And>r. r \<in> set (server_logs st) \<Longrightarrow> \<not> is_purged r"
    using assms by (rule reachable_rows_not_purged)
  have a: "filter (\<lambda>l. purge_after l \<le> now \<and> \<not> is_purged l) (server_logs st) =
           filter (\<lambda>r. purge_after r \<le> now) (server_logs st)"
    using np by (auto intro: filter_cong)
  have b: "filter (\<lambda>l. \<not> (purge_after l \<le> now \<and> \<not> is_purged l)) (server_logs st) =
           filter (\<lambda>r. now < purge_after r) (server_logs st)"
    using np by (auto intro: filter_cong)
  show ?thesis
    by (simp only: purge_expired_logs_eq a b)
qed

lemma check_scan_lookup:
  "distinct (map fst (kill_switch_registry st)) \<Longrightarrow>
   map_of (kill_switch_registry st) sid = Some ks \<Longrightarrow> enabled ks \<Longrightarrow>
   map_of (c_registry (check_scan now st)) sid = Some (evaluate now ks)"
  by (simp add: check_scan_def check_loop_registry del: map_of_eq_Some_iff)

lemma py_int_floor: "0 \<le> x \<Longrightarrow> py_int x = \<lfloor>x\<rfloor>"
  by (simp add: py_int_def)

lemma heartbeat_no_session:
  "map_of (active_sessions st) sid = None \<Longrightarrow>
   fst (heartbeat sid user now st) =
     Inl (HTTPException 404 ''Session not found or already terminated by kill switch'')"
  by (simp add: heartbeat_def)

lemma heartbeat_no_record:
  "map_of (active_sessions st) sid = Some sess \<Longrightarrow>
   map_of (kill_switch_registry st) sid = None \<Longrightarrow>
   fst (heartbeat sid user now st) =
     Inl (HTTPException 400 ''Kill switch not registered for this session'')"
  by (simp add: heartbeat_def kill_switch_heartbeat_def)

lemma heartbeat_success:
  assumes "map_of (active_sessions st) sid = Some sess"
    and "map_of (kill_switch_registry st) sid = Some ks"
  shows "fst (heartbeat sid user now st) =
           Inr \<lparr>hb_session_id = sid, hb_status = Active, heartbeat_received = True,
                time_since_last_heartbeat_sec = py_round2 (now - last_heartbeat ks),
                next_heartbeat_due_sec = KILL_SWITCH_HEARTBEAT_INTERVAL\<rparr>"
    and "map_of (kill_switch_registry (snd (heartbeat sid user now st))) sid =
           Some (ks\<lparr>last_heartbeat := now, missed_heartbeats := 0, status_ks := Active\<rparr>)"
  using assms
  by (simp_all add: heartbeat_def kill_switch_heartbeat_def Let_def update_conv'
        del: map_of_eq_Some_iff)

lemma connect_logs:
  "server_logs (snd (connect req sid user n1 n2 d1 d2 st)) =
     (case find (\<lambda>s. srv_id s = req_server_id req) SERVERS of
        None \<Rightarrow> server_logs st
      | Some srv \<Rightarrow>
          if truthy (req_stealth_mode req) \<and> the (req_stealth_mode req) \<notin> set STEALTH_PROTOCOLS
          then server_logs st
          else server_logs st @
                 [fst (create_minimal_log (server_logs st) ''session_start'' None None None
                        (req_protocol req) (Some (srv_flag srv)) d1 d2)])"
  by (auto simp: connect_def Let_def split_beta create_minimal_log_snd split: option.splits)

lemma connect_multi_hop_logs:
  "server_logs (snd (connect_multi_hop entry exit stealth ksw sid user n1 n2 d1 d2 st)) =
     (case find (\<lambda>s. srv_id s = entry) SERVERS of
        None \<Rightarrow> server_logs st
      | Some entry_server \<Rightarrow>
         (case find (\<lambda>s. srv_id s = exit) SERVERS of
            None \<Rightarrow> server_logs st
          | Some exit_server \<Rightarrow>
              if entry = exit then server_logs st
              else if truthy stealth \<and> the stealth \<notin> set STEALTH_PROTOCOLS then server_logs st
              else server_logs st @
                     [fst (create_minimal_log (server_logs st) ''multi_hop_session_start'' None
                            None None (Some ''WireGuard (Double-encrypted)'') None d1 d2)]))"
  by (auto simp: connect_multi_hop_def Let_def split_beta create_minimal_log_snd
        split: option.splits)

lemma truncate_hour_bounds:
  "truncate_hour t mod 3600000000 = 0 \<and> truncate_hour t \<le> t \<and> t < truncate_hour t + 3600000000"
proof -
  have "0 \<le> t mod 3600000000" and "t mod 3600000000 < 3600000000"
    by simp_all
  moreover have "(t - t mod 3600000000) mod 3600000000 = 0"
    by (simp add: minus_mod_eq_mult_div)
  ultimately show ?thesis
    by (simp add: truncate_hour_def)
qed

lemma create_minimal_log_same_hour:
  assumes "truncate_hour clock1 = truncate_hour clock2"
  shows "timestamp (last (snd (create_minimal_log db ev sa dur b p r clock1 clock2))) =
           truncate_hour clock1 \<and>
         purge_after (last (snd (create_minimal_log db ev sa dur b p r clock1 clock2))) =
           clock1 + NO_LOGS_RETENTION_MINUTES * 60000000"
  using assms by (simp add: create_minimal_log_clock_reads)

lemma last_lookup:
  "al \<noteq> [] \<Longrightarrow> distinct (map fst al) \<Longrightarrow> map_of al (fst (last al)) = Some (snd (last al))"
  by simp

section \<open>The claims\<close>

subsection \<open>C1: a session is removed exactly once\<close>

text \<open>
  Claim C1. Take a session with an enabled kill-switch record whose last heartbeat is at
  least the timeout old, so that both the monitor and an explicit disconnect could remove
  it. If the monitor ticks first, the tick at \<open>now\<close> removes the session and its record, the
  whole run of ticks \<open>now # nows\<close> reports the session terminated exactly once whatever the
  later clock reads are, and a disconnect after the run fails with 404 and leaves the state
  as it is. If the disconnect comes first it succeeds, both registries no longer hold the
  id, and no later run of ticks reports the session.
\<close>

theorem exactly_once_removal:
  assumes "distinct (map fst (kill_switch_registry st))"
    and "map_of (active_sessions st) sid = Some sess"
    and "map_of (kill_switch_registry st) sid = Some ks"
    and "enabled ks"
    and "KILL_SWITCH_TIMEOUT \<le> now - last_heartbeat ks"
  shows "length (filter (\<lambda>e. t_session_id e = sid) (fst (run_ticks (now # nows) st))) = 1 \<and>
         sid \<notin> fst ` set (active_sessions (snd (kill_switch_check_all now st))) \<and>
         sid \<notin> fst ` set (kill_switch_registry (snd (kill_switch_check_all now st))) \<and>
         disconnect sid user n rnd d1 d2 (snd (run_ticks (now # nows) st)) =
           (Inl (HTTPException 404 ''Session not found''), snd (run_ticks (now # nows) st)) \<and>
         (\<exists>r. fst (disconnect sid user n rnd d1 d2 st) = Inr r) \<and>
         sid \<notin> t_session_id ` set (fst (run_ticks nows' (snd (disconnect sid user n rnd d1 d2 st)))) \<and>
         sid \<notin> fst ` set (active_sessions (snd (disconnect sid user n rnd d1 d2 st))) \<and>
         sid \<notin> fst ` set (kill_switch_registry (snd (disconnect sid user n rnd d1 d2 st)))"
proof -
  let ?st1 = "snd (kill_switch_check_all now st)"
  let ?std = "snd (disconnect sid user n rnd d1 d2 st)"
  have a1: "map_of (active_sessions ?st1) sid = None"
    and r1: "map_of (kill_switch_registry ?st1) sid = None"
    and t1: "filter (\<lambda>e. t_session_id e = sid) (fst (kill_switch_check_all now st)) =
           [termination_entry now sid ks sess]"
    using tick_removes [OF assms] by blast+
  have "sid \<notin> fst ` set (kill_switch_registry ?st1)"
    using r1 by (simp only: not_in_keys)
  then have "sid \<notin> t_session_id ` set (fst (run_ticks nows ?st1))"
    by (rule run_ticks_no_termination)
  then have t2: "filter (\<lambda>e. t_session_id e = sid) (fst (run_ticks nows ?st1)) = []"
    by (rule filter_id_none)
  have c1: "length (filter (\<lambda>e. t_session_id e = sid) (fst (run_ticks (now # nows) st))) = 1"
    using t1 t2 by (simp add: split_beta)
  have "map_of (active_sessions (snd (run_ticks nows ?st1))) sid = None"
    using a1 by (rule run_ticks_sessions_none)
  then have "map_of (active_sessions (snd (run_ticks (now # nows) st))) sid = None"
    by (simp add: split_beta)
  then have c4: "disconnect sid user n rnd d1 d2 (snd (run_ticks (now # nows) st)) =
           (Inl (HTTPException 404 ''Session not found''), snd (run_ticks (now # nows) st))"
    by (rule disconnect_absent)
  have c5: "\<exists>r. fst (disconnect sid user n rnd d1 d2 st) = Inr r"
    using disconnect_present(1) [OF assms(2)] by blast
  have c7: "sid \<notin> fst ` set (active_sessions ?std)"
    and c8: "sid \<notin> fst ` set (kill_switch_registry ?std)"
    by (simp_all only: disconnect_present(2,3) [OF assms(2)] delete_keys_notin not_False_eq_True)
  have c6: "sid \<notin> t_session_id ` set (fst (run_ticks nows' ?std))"
    using c8 by (rule run_ticks_no_termination)
  show ?thesis
    using c1 a1 r1 c4 c5 c6 c7 c8 by (simp only: not_in_keys simp_thms)
qed

theorem exactly_once_removal_witness:
  "distinct (map fst (kill_switch_registry ex_state)) \<and>
   map_of (active_sessions ex_state) ''s1'' = Some (ex_session ''s1'' ''alice'' True) \<and>
   map_of (kill_switch_registry ex_state) ''s1'' = Some (ex_kill_switch ''s1'') \<and>
   enabled (ex_kill_switch ''s1'') \<and>
   KILL_SWITCH_TIMEOUT \<le> 31 - last_heartbeat (ex_kill_switch ''s1'') \<and>
   length (filter (\<lambda>e. t_session_id e = ''s1'') (fst (run_ticks [31, 41, 51] ex_state))) = 1 \<and>
   disconnect ''s1'' ''alice'' 60 100000 0 0 (snd (run_ticks [31, 41, 51] ex_state)) =
     (Inl (HTTPException 404 ''Session not found''), snd (run_ticks [31, 41, 51] ex_state)) \<and>
   (\<exists>r. fst (disconnect ''s1'' ''alice'' 60 100000 0 0 ex_state) = Inr r) \<and>
   ''s1'' \<notin> t_session_id ` set
      (fst (run_ticks [31, 41] (snd (disconnect ''s1'' ''alice'' 60 100000 0 0 ex_state))))"
proof -
  have h1: "distinct (map fst (kill_switch_registry ex_state))"
    by (simp add: ex_defs)
  have h2: "map_of (active_sessions ex_state) ''s1'' = Some (ex_session ''s1'' ''alice'' True)"
    by (simp add: ex_defs)
  have h3: "map_of (kill_switch_registry ex_state) ''s1'' = Some (ex_kill_switch ''s1'')"
    by (simp add: ex_defs)
  have h4: "enabled (ex_kill_switch ''s1'')"
    by (simp add: ex_defs)
  have h5: "KILL_SWITCH_TIMEOUT \<le> 31 - last_heartbeat (ex_kill_switch ''s1'')"
    by (simp add: ex_defs model_consts)
  show ?thesis
    using h1 h2 h3 h4 h5
      exactly_once_removal [OF h1 h2 h3 h4 h5, where nows = "[41, 51]" and user = "''alice''"
        and n = 60 and rnd = 100000 and ?d1.0 = 0 and ?d2.0 = 0 and nows' = "[31, 41]"]
    by blast
qed

subsection \<open>C2: the transition rule of a tick\<close>

text \<open>
  Claim C2. Take a record of a reachable state and a tick at a clock read \<open>now\<close> no earlier
  than the state, and let \<open>elapsed = now - last_heartbeat\<close>. After the scan of the tick the
  record is \<open>Active\<close> if \<open>elapsed\<close> is below the heartbeat interval; it is \<open>Warning\<close> with
  missed count \<open>\<lfloor>elapsed / interval\<rfloor>\<close> if \<open>elapsed\<close> is at least the interval and below the
  timeout; it is \<open>Triggered\<close> otherwise. Below the timeout the record stays in the registry
  in that state when the tick ends. The scan itself only writes \<open>Warning\<close> and
  \<open>Triggered\<close>; \<open>Active\<close> below the interval holds because a record is created and
  refreshed as \<open>Active\<close> and the clock does not go back.
\<close>

theorem monitor_transition_rule:
  assumes "reachable t st" and "t \<le> now"
    and "map_of (kill_switch_registry st) sid = Some ks"
  shows "\<exists>ks'. map_of (c_registry (check_scan now st)) sid = Some ks' \<and>
     (now - last_heartbeat ks < KILL_SWITCH_HEARTBEAT_INTERVAL \<longrightarrow> status_ks ks' = Active) \<and>
     (KILL_SWITCH_HEARTBEAT_INTERVAL \<le> now - last_heartbeat ks \<and>
      now - last_heartbeat ks < KILL_SWITCH_TIMEOUT \<longrightarrow>
        status_ks ks' = Warning \<and>
        missed_heartbeats ks' = \<lfloor>(now - last_heartbeat ks) / KILL_SWITCH_HEARTBEAT_INTERVAL\<rfloor>) \<and>
     (KILL_SWITCH_TIMEOUT \<le> now - last_heartbeat ks \<longrightarrow> status_ks ks' = Triggered) \<and>
     (now - last_heartbeat ks < KILL_SWITCH_TIMEOUT \<longrightarrow>
        map_of (kill_switch_registry (snd (kill_switch_check_all now st))) sid = Some ks')"
proof -
  have inv: "mem_inv t st" using assms(1) by (rule reachable_mem_inv)
  have d: "distinct (map fst (kill_switch_registry st))"
    using inv by (simp add: mem_inv_def)
  have ok: "ks_ok t ks"
    using inv assms(3) unfolding mem_inv_def by blast
  then have en: "enabled ks" and nt: "status_ks ks \<noteq> Triggered"
    and w: "status_ks ks = Warning \<Longrightarrow> KILL_SWITCH_HEARTBEAT_INTERVAL \<le> t - last_heartbeat ks"
    by (simp_all add: ks_ok_def)
  have l: "map_of (c_registry (check_scan now st)) sid = Some (evaluate now ks)"
    using d assms(3) en by (rule check_scan_lookup)
  have a: "status_ks (evaluate now ks) = Active"
    if "now - last_heartbeat ks < KILL_SWITCH_HEARTBEAT_INTERVAL"
  proof -
    have "status_ks ks \<noteq> Warning"
      using w that assms(2) by auto
    with nt have "status_ks ks = Active" by (cases "status_ks ks") simp_all
    with that show ?thesis
      by (simp add: evaluate_status KILL_SWITCH_HEARTBEAT_INTERVAL_def KILL_SWITCH_TIMEOUT_def)
  qed
  have b: "status_ks (evaluate now ks) = Warning \<and>
        missed_heartbeats (evaluate now ks) =
          \<lfloor>(now - last_heartbeat ks) / KILL_SWITCH_HEARTBEAT_INTERVAL\<rfloor>"
    if "KILL_SWITCH_HEARTBEAT_INTERVAL \<le> now - last_heartbeat ks \<and>
        now - last_heartbeat ks < KILL_SWITCH_TIMEOUT"
  proof -
    have "0 \<le> (now - last_heartbeat ks) / KILL_SWITCH_HEARTBEAT_INTERVAL"
      using that by (simp add: KILL_SWITCH_HEARTBEAT_INTERVAL_def)
    then show ?thesis
      using that by (simp add: evaluate_status evaluate_missed py_int_floor)
  qed
  have c: "status_ks (evaluate now ks) = Triggered"
    if "KILL_SWITCH_TIMEOUT \<le> now - last_heartbeat ks"
    using that by (simp add: evaluate_status)
  have e: "map_of (kill_switch_registry (snd (kill_switch_check_all now st))) sid =
        Some (evaluate now ks)"
    if "now - last_heartbeat ks < KILL_SWITCH_TIMEOUT"
    using that d assms(3) en by (simp add: check_all_registry expires_def del: map_of_eq_Some_iff)
  show ?thesis
    using l a b c e by blast
qed

theorem monitor_transition_rule_witness:
  "reachable 0 ex_state \<and>
   map_of (kill_switch_registry ex_state) ''s1'' = Some (ex_kill_switch ''s1'') \<and>
   map_option status_ks (map_of (c_registry (check_scan 5 ex_state)) ''s1'') = Some Active \<and>
   map_option (\<lambda>k. (status_ks k, missed_heartbeats k))
     (map_of (c_registry (check_scan 25 ex_state)) ''s1'') = Some (Warning, 2) \<and>
   map_option status_ks (map_of (c_registry (check_scan 31 ex_state)) ''s1'') = Some Triggered"
proof -
  have h: "map_of (kill_switch_registry ex_state) ''s1'' = Some (ex_kill_switch ''s1'')"
    by (simp add: ex_state_def)
  have v: "last_heartbeat (ex_kill_switch ''s1'') = 0"
    by (simp add: ex_kill_switch_def)
  have f: "\<lfloor>(25::real) / 10\<rfloor> = 2" by simp
  have t5: "(0::real) \<le> 5" and t25: "(0::real) \<le> 25" and t31: "(0::real) \<le> 31"
    by simp_all
  from monitor_transition_rule [OF reachable_ex_state t5 h]
  have c5: "map_option status_ks (map_of (c_registry (check_scan 5 ex_state)) ''s1'') = Some Active"
    by (auto simp: v KILL_SWITCH_HEARTBEAT_INTERVAL_def KILL_SWITCH_TIMEOUT_def)
  from monitor_transition_rule [OF reachable_ex_state t25 h]
  have c25: "map_option (\<lambda>k. (status_ks k, missed_heartbeats k))
     (map_of (c_registry (check_scan 25 ex_state)) ''s1'') = Some (Warning, 2)"
    by (auto simp: v f KILL_SWITCH_HEARTBEAT_INTERVAL_def KILL_SWITCH_TIMEOUT_def)
  from monitor_transition_rule [OF reachable_ex_state t31 h]
  have c31: "map_option status_ks (map_of (c_registry (check_scan 31 ex_state)) ''s1'') = Some Triggered"
    by (auto simp: v KILL_SWITCH_HEARTBEAT_INTERVAL_def KILL_SWITCH_TIMEOUT_def)
  show ?thesis
    using reachable_ex_state h c5 c25 c31 by blast
qed

subsection \<open>C3: what a tick does with a timed-out record\<close>

text \<open>
  Claim C3, as stated, fails on the retention record: \<open>kill_switch_check_all\<close> has no
  database handle and appends nothing. At time 31 the example session is scanned as
  \<open>Triggered\<close> and removed, and the table of rows is what it was.
\<close>

theorem tick_appends_no_row_counterexample:
  "map_of (active_sessions ex_state) ''s1'' \<noteq> None \<and>
   map_option status_ks (map_of (c_registry (check_scan 31 ex_state)) ''s1'') = Some Triggered \<and>
   map_of (active_sessions (snd (kill_switch_check_all 31 ex_state))) ''s1'' = None \<and>
   server_logs (snd (kill_switch_check_all 31 ex_state)) = server_logs ex_state"
  by (simp add: kill_switch_check_all_def check_scan_def check_body_def ex_defs model_consts
        Let_def py_int_def)

text \<open>
  Claim C3, amended. When a tick scans an enabled record whose last heartbeat is at least
  the timeout old and whose session still exists, the record is marked \<open>Triggered\<close>, the
  session and the record are removed, and the tick's result holds exactly one entry for
  the session: reason \<open>heartbeat_timeout\<close> (not a session end), the missed count and the
  elapsed time rounded to two decimals. The retention store is left unchanged.
\<close>

theorem tick_removes_and_reports:
  assumes "distinct (map fst (kill_switch_registry st))"
    and "map_of (active_sessions st) sid = Some sess"
    and "map_of (kill_switch_registry st) sid = Some ks"
    and "enabled ks"
    and "KILL_SWITCH_TIMEOUT \<le> now - last_heartbeat ks"
  shows "map_option status_ks (map_of (c_registry (check_scan now st)) sid) = Some Triggered \<and>
         sid \<notin> fst ` set (active_sessions (snd (kill_switch_check_all now st))) \<and>
         sid \<notin> fst ` set (kill_switch_registry (snd (kill_switch_check_all now st))) \<and>
         filter (\<lambda>e. t_session_id e = sid) (fst (kill_switch_check_all now st)) =
           [\<lparr>t_session_id = sid, t_reason = ''heartbeat_timeout'',
             t_missed_heartbeats =
               py_int ((now - last_heartbeat ks) / KILL_SWITCH_HEARTBEAT_INTERVAL),
             t_elapsed_since_last_heartbeat_sec = py_round2 (now - last_heartbeat ks),
             t_server_id = s_server_id sess\<rparr>] \<and>
         server_logs (snd (kill_switch_check_all now st)) = server_logs st"
proof -
  have a: "map_of (active_sessions (snd (kill_switch_check_all now st))) sid = None"
    and r: "map_of (kill_switch_registry (snd (kill_switch_check_all now st))) sid = None"
    and t: "filter (\<lambda>e. t_session_id e = sid) (fst (kill_switch_check_all now st)) =
           [termination_entry now sid ks sess]"
    and s: "map_of (c_registry (check_scan now st)) sid = Some (evaluate now ks)"
    using tick_removes [OF assms] by blast+
  have "status_ks (evaluate now ks) = Triggered"
    using assms(5) by (simp add: evaluate_status)
  with s have c1: "map_option status_ks (map_of (c_registry (check_scan now st)) sid) = Some Triggered"
    by simp
  show ?thesis
    using c1 a r t
    by (simp only: not_in_keys check_all_logs termination_entry_def simp_thms)
qed

theorem tick_removes_and_reports_witness:
  "distinct (map fst (kill_switch_registry ex_state)) \<and>
   map_of (active_sessions ex_state) ''s1'' = Some (ex_session ''s1'' ''alice'' True) \<and>
   map_of (kill_switch_registry ex_state) ''s1'' = Some (ex_kill_switch ''s1'') \<and>
   enabled (ex_kill_switch ''s1'') \<and>
   KILL_SWITCH_TIMEOUT \<le> 31 - last_heartbeat (ex_kill_switch ''s1'') \<and>
   ''s1'' \<notin> fst ` set (active_sessions (snd (kill_switch_check_all 31 ex_state))) \<and>
   ''s1'' \<notin> fst ` set (kill_switch_registry (snd (kill_switch_check_all 31 ex_state))) \<and>
   filter (\<lambda>e. t_session_id e = ''s1'') (fst (kill_switch_check_all 31 ex_state)) =
     [\<lparr>t_session_id = ''s1'', t_reason = ''heartbeat_timeout'', t_missed_heartbeats = 3,
       t_elapsed_since_last_heartbeat_sec = 31, t_server_id = ''us-east-1''\<rparr>] \<and>
   server_logs (snd (kill_switch_check_all 31 ex_state)) = [ex_row 0]"
proof -
  have h1: "distinct (map fst (kill_switch_registry ex_state))"
    by (simp add: ex_defs)
  have h2: "map_of (active_sessions ex_state) ''s1'' = Some (ex_session ''s1'' ''alice'' True)"
    by (simp add: ex_defs)
  have h3: "map_of (kill_switch_registry ex_state) ''s1'' = Some (ex_kill_switch ''s1'')"
    by (simp add: ex_defs)
  have h4: "enabled (ex_kill_switch ''s1'')"
    by (simp add: ex_defs)
  have h5: "KILL_SWITCH_TIMEOUT \<le> 31 - last_heartbeat (ex_kill_switch ''s1'')"
    by (simp add: ex_defs model_consts)
  have v: "py_int ((31 - last_heartbeat (ex_kill_switch ''s1'')) / KILL_SWITCH_HEARTBEAT_INTERVAL) = 3"
    "py_round2 (31 - last_heartbeat (ex_kill_switch ''s1'')) = 31"
    "s_server_id (ex_session ''s1'' ''alice'' True) = ''us-east-1''"
    "server_logs ex_state = [ex_row 0]"
    by (simp_all add: ex_defs model_consts py_int_def py_round2_def)
  show ?thesis
    using h1 h2 h3 h4 h5 tick_removes_and_reports [OF h1 h2 h3 h4 h5]
    by (simp add: v)
qed

subsection \<open>C4: purging expired rows\<close>

text \<open>
  Claim C4. On the table of any reachable state, \<open>purge_expired_logs\<close> at clock read
  \<open>now\<close> leaves exactly the rows whose \<open>purge_after\<close> is strictly greater than \<open>now\<close>, in
  their order: no such row is deleted and every row with \<open>purge_after \<le> now\<close> is. It
  returns the number of rows deleted, and a second run at the same \<open>now\<close> on the table it
  left returns 0 and changes nothing. The query also filters on \<open>is_purged = False\<close>; every
  row the program writes has that flag false, which is what reachability supplies.
\<close>

theorem purge_expired_logs_correct:
  assumes "reachable t st"
  shows "snd (purge_expired_logs now (server_logs st)) =
           filter (\<lambda>r. now < purge_after r) (server_logs st) \<and>
         (\<forall>r\<in>set (server_logs st). now < purge_after r \<longrightarrow>
            r \<in> set (snd (purge_expired_logs now (server_logs st)))) \<and>
         (\<forall>r\<in>set (snd (purge_expired_logs now (server_logs st))). now < purge_after r) \<and>
         fst (purge_expired_logs now (server_logs st)) =
           length (filter (\<lambda>r. purge_after r \<le> now) (server_logs st)) \<and>
         fst (purge_expired_logs now (server_logs st)) +
           length (snd (purge_expired_logs now (server_logs st))) = length (server_logs st) \<and>
         purge_expired_logs now (snd (purge_expired_logs now (server_logs st))) =
           (0, snd (purge_expired_logs now (server_logs st)))"
proof -
  let ?db = "server_logs st"
  let ?keep = "filter (\<lambda>r. now < purge_after r) ?db"
  have p: "purge_expired_logs now ?db = (length (filter (\<lambda>r. purge_after r \<le> now) ?db), ?keep)"
    using assms by (rule purge_reachable)
  have len: "length (filter (\<lambda>r. purge_after r \<le> now) ?db) + length ?keep = length ?db"
    using sum_length_filter_compl [of "\<lambda>r. purge_after r \<le> now" ?db]
    by (simp add: not_le)
  have e: "filter (\<lambda>l. purge_after l \<le> now \<and> \<not> is_purged l) ?keep = []"
    by (subst filter_empty_conv) auto
  have k: "filter (\<lambda>l. \<not> (purge_after l \<le> now \<and> \<not> is_purged l)) ?keep = ?keep"
    by (subst filter_id_conv) auto
  have again: "purge_expired_logs now ?keep = (0, ?keep)"
    by (simp only: purge_expired_logs_eq e k list.size)
  show ?thesis
    using len again by (simp add: p)
qed

theorem purge_expired_logs_correct_witness:
  "reachable 0 ex_state_two \<and>
   server_logs ex_state_two = [ex_row 0, ex_row 200000000] \<and>
   purge_after (ex_row 0) \<le> 300000000 \<and> 300000000 < purge_after (ex_row 200000000) \<and>
   fst (purge_expired_logs 300000000 (server_logs ex_state_two)) = 1 \<and>
   snd (purge_expired_logs 300000000 (server_logs ex_state_two)) = [ex_row 200000000] \<and>
   purge_expired_logs 300000000 (snd (purge_expired_logs 300000000 (server_logs ex_state_two))) =
     (0, snd (purge_expired_logs 300000000 (server_logs ex_state_two)))"
proof -
  note T = purge_expired_logs_correct [OF reachable_ex_state_two, of 300000000]
  have l: "server_logs ex_state_two = [ex_row 0, ex_row 200000000]"
    by (simp add: ex_state_two_def)
  have p0: "purge_after (ex_row 0) \<le> 300000000"
    by (simp add: ex_row_def)
  have p1: "300000000 < purge_after (ex_row 200000000)"
    by (simp add: ex_row_def)
  have f1: "filter (\<lambda>r. 300000000 < purge_after r) [ex_row 0, ex_row 200000000] = [ex_row 200000000]"
    using p0 p1 by simp
  have f2: "length (filter (\<lambda>r. purge_after r \<le> 300000000) [ex_row 0, ex_row 200000000]) = 1"
    using p0 p1 by simp
  from T have "snd (purge_expired_logs 300000000 (server_logs ex_state_two)) =
      filter (\<lambda>r. 300000000 < purge_after r) (server_logs ex_state_two)"
    by (rule conjunct1)
  then have s: "snd (purge_expired_logs 300000000 (server_logs ex_state_two)) = [ex_row 200000000]"
    by (simp only: l f1)
  from T have "fst (purge_expired_logs 300000000 (server_logs ex_state_two)) =
      length (filter (\<lambda>r. purge_after r \<le> 300000000) (server_logs ex_state_two))"
    by blast
  then have c: "fst (purge_expired_logs 300000000 (server_logs ex_state_two)) = 1"
    by (simp only: l f2)
  from T have i: "purge_expired_logs 300000000
       (snd (purge_expired_logs 300000000 (server_logs ex_state_two))) =
     (0, snd (purge_expired_logs 300000000 (server_logs ex_state_two)))"
    by blast
  show ?thesis
    using reachable_ex_state_two l p0 p1 c s i by blast
qed

subsection \<open>C5: coarse timestamp, exact expiry\<close>

text \<open>
  Claim C5 asks that the stored \<open>timestamp\<close> be the event time \<open>t\<close> truncated to the start
  of its hour and the stored \<open>purge_after\<close> be the untruncated \<open>t\<close> plus the retention
  window. \<open>create_minimal_log\<close> reads the clock twice, once for each field. With the first
  read at 21:59:59.999999 and the second at 22:00:00.000001 the row appended to the table
  has \<open>timestamp\<close> 22:00 while \<open>purge_after\<close> is the first read plus five minutes, whose
  hour starts at 21:00: no event time \<open>t\<close> gives both fields of the stored row. Lemma
  \<open>create_minimal_log_clock_reads\<close> gives the two fields for any two reads and lemma
  \<open>create_minimal_log_same_hour\<close> shows the claim holds, with \<open>t\<close> the first read, whenever
  both reads fall in the same hour.
\<close>

theorem create_minimal_log_hour_straddle:
  "snd (create_minimal_log [] ''session_start'' None None None None None
          79199999999 79200000001) =
     [fst (create_minimal_log [] ''session_start'' None None None None None
                 79199999999 79200000001)] \<and>
   timestamp (last (snd (create_minimal_log [] ''session_start'' None None None None None
          79199999999 79200000001))) = 79200000000 \<and>
   purge_after (last (snd (create_minimal_log [] ''session_start'' None None None None None
          79199999999 79200000001))) = 79199999999 + 300000000 \<and>
   truncate_hour 79199999999 = 75600000000 \<and>
   \<not> (\<exists>t. timestamp (last (snd (create_minimal_log [] ''session_start'' None None None None None
                 79199999999 79200000001))) = truncate_hour t \<and>
            purge_after (last (snd (create_minimal_log [] ''session_start'' None None None None
                 None 79199999999 79200000001))) = t + NO_LOGS_RETENTION_MINUTES * 60000000)"
proof -
  let ?row = "last (snd (create_minimal_log [] ''session_start'' None None None None None
          79199999999 79200000001))"
  have s: "snd (create_minimal_log [] ''session_start'' None None None None None
          79199999999 79200000001) =
     [fst (create_minimal_log [] ''session_start'' None None None None None
                 79199999999 79200000001)]"
    by (simp add: create_minimal_log_clock_reads)
  have ts: "timestamp ?row = 79200000000"
    by (simp add: create_minimal_log_clock_reads truncate_hour_def)
  have pa: "purge_after ?row = 79199999999 + 300000000"
    by (simp add: create_minimal_log_clock_reads NO_LOGS_RETENTION_MINUTES_def)
  have th: "truncate_hour 79199999999 = 75600000000"
    by (simp add: truncate_hour_def)
  have "\<not> (\<exists>t. timestamp ?row = truncate_hour t \<and>
              purge_after ?row = t + NO_LOGS_RETENTION_MINUTES * 60000000)"
  proof
    assume "\<exists>t. timestamp ?row = truncate_hour t \<and>
              purge_after ?row = t + NO_LOGS_RETENTION_MINUTES * 60000000"
    then obtain t where a: "timestamp ?row = truncate_hour t"
      and b: "purge_after ?row = t + NO_LOGS_RETENTION_MINUTES * 60000000" by blast
    from b pa have "t = 79199999999"
      by (simp add: NO_LOGS_RETENTION_MINUTES_def)
    with a ts th show False by simp
  qed
  with s ts pa th show ?thesis by blast
qed

subsection \<open>C6: reporting liveness\<close>

text \<open>
  Claim C6, as stated, fails on the kind of failure: for a session that exists and has no
  kill-switch record, \<open>heartbeat\<close> raises 400 (kill switch not registered), not 404.
\<close>

theorem heartbeat_unregistered_counterexample:
  "map_of (active_sessions ex_state_plain) ''s1'' \<noteq> None \<and>
   map_of (kill_switch_registry ex_state_plain) ''s1'' = None \<and>
   fst (heartbeat ''s1'' ''alice'' 5 ex_state_plain) =
     Inl (HTTPException 400 ''Kill switch not registered for this session'') \<and>
   fst (heartbeat ''s1'' ''alice'' 5 ex_state_plain) \<noteq>
     Inl (HTTPException 404 ''Session not found or already terminated by kill switch'')"
  by (simp add: heartbeat_def kill_switch_heartbeat_def ex_defs)

text \<open>
  Claim C6, amended. In every reachable state \<open>heartbeat\<close> fails exactly when the id has no
  kill-switch record: with 404 when the session is absent (never created, ended, or removed
  by the monitor) and with 400 when the session exists without a record. On success it sets
  \<open>last_heartbeat\<close> to \<open>now\<close>, the state to \<open>Active\<close> and the missed count to 0, and returns
  the refreshed state. For every session a tick has just reported as terminated, a
  heartbeat on the state the tick left fails with 404.
\<close>

theorem heartbeat_result:
  assumes "reachable t st"
  shows "((\<exists>e. fst (heartbeat sid user now st) = Inl e) \<longleftrightarrow>
            map_of (kill_switch_registry st) sid = None) \<and>
         (sid \<notin> fst ` set (active_sessions st) \<longrightarrow>
            fst (heartbeat sid user now st) =
              Inl (HTTPException 404 ''Session not found or already terminated by kill switch'')) \<and>
         (sid \<in> fst ` set (active_sessions st) \<and> map_of (kill_switch_registry st) sid = None \<longrightarrow>
            fst (heartbeat sid user now st) =
              Inl (HTTPException 400 ''Kill switch not registered for this session'')) \<and>
         (\<forall>ks. map_of (kill_switch_registry st) sid = Some ks \<longrightarrow>
            fst (heartbeat sid user now st) =
              Inr \<lparr>hb_session_id = sid, hb_status = Active, heartbeat_received = True,
                   time_since_last_heartbeat_sec = py_round2 (now - last_heartbeat ks),
                   next_heartbeat_due_sec = KILL_SWITCH_HEARTBEAT_INTERVAL\<rparr> \<and>
            map_of (kill_switch_registry (snd (heartbeat sid user now st))) sid =
              Some (ks\<lparr>last_heartbeat := now, missed_heartbeats := 0, status_ks := Active\<rparr>)) \<and>
         (\<forall>e\<in>set (fst (kill_switch_check_all n st)).
            fst (heartbeat (t_session_id e) user now (snd (kill_switch_check_all n st))) =
              Inl (HTTPException 404 ''Session not found or already terminated by kill switch''))"
proof -
  have inv: "mem_inv t st" using assms by (rule reachable_mem_inv)
  have reg: "map_of (active_sessions st) sid \<noteq> None"
    if "map_of (kill_switch_registry st) sid = Some ks" for ks
    using inv that unfolding mem_inv_def by blast
  have c2: "fst (heartbeat sid user now st) =
      Inl (HTTPException 404 ''Session not found or already terminated by kill switch'')"
    if "sid \<notin> fst ` set (active_sessions st)"
  proof -
    from that have "map_of (active_sessions st) sid = None" by (simp only: not_in_keys)
    then show ?thesis by (rule heartbeat_no_session)
  qed
  have c3: "fst (heartbeat sid user now st) =
      Inl (HTTPException 400 ''Kill switch not registered for this session'')"
    if "sid \<in> fst ` set (active_sessions st) \<and> map_of (kill_switch_registry st) sid = None"
  proof -
    from that have "map_of (active_sessions st) sid \<noteq> None"
      using not_in_keys [of sid "active_sessions st"] by blast
    then obtain sess where "map_of (active_sessions st) sid = Some sess" by blast
    then show ?thesis using that by (simp only: heartbeat_no_record)
  qed
  have c4: "fst (heartbeat sid user now st) =
              Inr \<lparr>hb_session_id = sid, hb_status = Active, heartbeat_received = True,
                   time_since_last_heartbeat_sec = py_round2 (now - last_heartbeat ks),
                   next_heartbeat_due_sec = KILL_SWITCH_HEARTBEAT_INTERVAL\<rparr> \<and>
            map_of (kill_switch_registry (snd (heartbeat sid user now st))) sid =
              Some (ks\<lparr>last_heartbeat := now, missed_heartbeats := 0, status_ks := Active\<rparr>)"
    if k: "map_of (kill_switch_registry st) sid = Some ks" for ks
  proof -
    from reg [OF k] obtain sess where s: "map_of (active_sessions st) sid = Some sess" by blast
    show ?thesis
      using heartbeat_success [OF s k] by blast
  qed
  have c1: "(\<exists>e. fst (heartbeat sid user now st) = Inl e) \<longleftrightarrow>
            map_of (kill_switch_registry st) sid = None"
  proof (cases "map_of (kill_switch_registry st) sid")
    case None
    show ?thesis
    proof (cases "map_of (active_sessions st) sid")
      case n: None
      then show ?thesis using None by (simp add: heartbeat_no_session)
    next
      case (Some sess)
      then show ?thesis using None by (simp add: heartbeat_no_record)
    qed
  next
    case (Some ks)
    then show ?thesis using c4 [OF Some] by simp
  qed
  have c5: "fst (heartbeat (t_session_id e) user now (snd (kill_switch_check_all n st))) =
              Inl (HTTPException 404 ''Session not found or already terminated by kill switch'')"
    if "e \<in> set (fst (kill_switch_check_all n st))" for e
  proof -
    from that have "t_session_id e \<in> set (expired_ids n (kill_switch_registry st))"
      using check_all_terminated_ids [of n st] by blast
    then have "map_of (active_sessions (snd (kill_switch_check_all n st))) (t_session_id e) = None"
      by (simp add: check_all_sessions)
    then show ?thesis by (rule heartbeat_no_session)
  qed
  show ?thesis
    using c1 c2 c3 c4 c5 by blast
qed

theorem heartbeat_result_witness:
  "reachable 0 ex_state \<and> reachable 0 ex_state_plain \<and> reachable 0 empty_state \<and>
   map_of (kill_switch_registry ex_state) ''s1'' = Some (ex_kill_switch ''s1'') \<and>
   fst (heartbeat ''s1'' ''alice'' 5 ex_state) =
     Inr \<lparr>hb_session_id = ''s1'', hb_status = Active, heartbeat_received = True,
          time_since_last_heartbeat_sec = 5, next_heartbeat_due_sec = 10\<rparr> \<and>
   map_of (kill_switch_registry (snd (heartbeat ''s1'' ''alice'' 5 ex_state))) ''s1'' =
     Some ((ex_kill_switch ''s1'')\<lparr>last_heartbeat := 5, missed_heartbeats := 0,
                                     status_ks := Active\<rparr>) \<and>
   ''s1'' \<in> fst ` set (active_sessions ex_state_plain) \<and>
   map_of (kill_switch_registry ex_state_plain) ''s1'' = None \<and>
   fst (heartbeat ''s1'' ''alice'' 5 ex_state_plain) =
     Inl (HTTPException 400 ''Kill switch not registered for this session'') \<and>
   ''s1'' \<notin> fst ` set (active_sessions empty_state) \<and>
   fst (heartbeat ''s1'' ''alice'' 5 empty_state) =
     Inl (HTTPException 404 ''Session not found or already terminated by kill switch'') \<and>
   map t_session_id (fst (kill_switch_check_all 31 ex_state)) = [''s1''] \<and>
   fst (heartbeat ''s1'' ''alice'' 32 (snd (kill_switch_check_all 31 ex_state))) =
     Inl (HTTPException 404 ''Session not found or already terminated by kill switch'')"
proof -
  note A = heartbeat_result [OF reachable_ex_state, of "''s1''" "''alice''" 5 31]
  note B = heartbeat_result [OF reachable_ex_state_plain, of "''s1''" "''alice''" 5 31]
  note C = heartbeat_result [OF reachable_empty, of "''s1''" "''alice''" 5 31]
  note D = heartbeat_result [OF reachable_ex_state, of "''s1''" "''alice''" 32 31]
  have k: "map_of (kill_switch_registry ex_state) ''s1'' = Some (ex_kill_switch ''s1'')"
    by (simp add: ex_state_def)
  have v: "py_round2 (5 - last_heartbeat (ex_kill_switch ''s1'')) = 5"
    "KILL_SWITCH_HEARTBEAT_INTERVAL = 10"
    by (simp_all add: ex_kill_switch_def py_round2_def KILL_SWITCH_HEARTBEAT_INTERVAL_def)
  have a1: "fst (heartbeat ''s1'' ''alice'' 5 ex_state) =
     Inr \<lparr>hb_session_id = ''s1'', hb_status = Active, heartbeat_received = True,
          time_since_last_heartbeat_sec = 5, next_heartbeat_due_sec = 10\<rparr>"
    using A k by (simp add: v)
  have a2: "map_of (kill_switch_registry (snd (heartbeat ''s1'' ''alice'' 5 ex_state))) ''s1'' =
     Some ((ex_kill_switch ''s1'')\<lparr>last_heartbeat := 5, missed_heartbeats := 0,
                                     status_ks := Active\<rparr>)"
    using A k by simp
  have p: "''s1'' \<in> fst ` set (active_sessions ex_state_plain)"
    "map_of (kill_switch_registry ex_state_plain) ''s1'' = None"
    by (simp_all add: ex_state_plain_def)
  have b1: "fst (heartbeat ''s1'' ''alice'' 5 ex_state_plain) =
     Inl (HTTPException 400 ''Kill switch not registered for this session'')"
    using B p by blast
  have e: "''s1'' \<notin> fst ` set (active_sessions empty_state)"
    by (simp add: empty_state_def)
  have c1: "fst (heartbeat ''s1'' ''alice'' 5 empty_state) =
     Inl (HTTPException 404 ''Session not found or already terminated by kill switch'')"
    using C e by blast
  have t: "map t_session_id (fst (kill_switch_check_all 31 ex_state)) = [''s1'']"
    by (simp add: kill_switch_check_all_def check_scan_def check_body_def ex_defs model_consts
          Let_def py_int_def)
  then obtain x where x: "x \<in> set (fst (kill_switch_check_all 31 ex_state))" "t_session_id x = ''s1''"
    by (cases "fst (kill_switch_check_all 31 ex_state)") auto
  have d1: "fst (heartbeat ''s1'' ''alice'' 32 (snd (kill_switch_check_all 31 ex_state))) =
     Inl (HTTPException 404 ''Session not found or already terminated by kill switch'')"
    using D x by metis
  show ?thesis
    using reachable_ex_state reachable_ex_state_plain reachable_empty k a1 a2 p b1 e c1 t d1
    by blast
qed

subsection \<open>C7: ending a session\<close>

text \<open>
  Claim C7, as stated, fails on the second NotFound case: \<open>disconnect\<close> never compares
  the caller with the owner stored in the session, so a session opened by alice is ended by
  bob.
\<close>

theorem disconnect_other_owner_counterexample:
  "map_option s_user_id (map_of (active_sessions ex_state) ''s1'') = Some (Some ''alice'') \<and>
   fst (disconnect ''s1'' ''bob'' 20 100000 0 0 ex_state) =
     Inr \<lparr>d_status = ''disconnected'', d_session_id = ''s1'', d_uptime_seconds = 20\<rparr>"
  by (simp add: disconnect_def create_minimal_log_def ex_defs model_consts Let_def split_beta
        py_int_def)

text \<open>
  Claim C7, amended. \<open>disconnect\<close> fails with 404 when the session does not exist. When it
  exists the call succeeds for every authenticated caller, owner or not: it returns the
  uptime, removes the session and its kill-switch record, and appends one row of kind
  \<open>session_end\<close> that carries the uptime as its duration.
\<close>

theorem disconnect_result:
  "(sid \<notin> fst ` set (active_sessions st) \<longrightarrow>
      disconnect sid user now rnd d1 d2 st = (Inl (HTTPException 404 ''Session not found''), st)) \<and>
   (\<forall>sess. map_of (active_sessions st) sid = Some sess \<longrightarrow>
      fst (disconnect sid user now rnd d1 d2 st) =
        Inr \<lparr>d_status = ''disconnected'', d_session_id = sid,
             d_uptime_seconds = py_int (now - s_connected_at sess)\<rparr> \<and>
      sid \<notin> fst ` set (active_sessions (snd (disconnect sid user now rnd d1 d2 st))) \<and>
      sid \<notin> fst ` set (kill_switch_registry (snd (disconnect sid user now rnd d1 d2 st))) \<and>
      (\<exists>row. server_logs (snd (disconnect sid user now rnd d1 d2 st)) = server_logs st @ [row] \<and>
         event_type row = ''session_end'' \<and>
         duration_seconds row = Some (py_int (now - s_connected_at sess))))"
proof (intro conjI allI impI)
  assume "sid \<notin> fst ` set (active_sessions st)"
  then have "map_of (active_sessions st) sid = None" by (simp only: not_in_keys)
  then show "disconnect sid user now rnd d1 d2 st = (Inl (HTTPException 404 ''Session not found''), st)"
    by (rule disconnect_absent)
next
  fix sess assume s: "map_of (active_sessions st) sid = Some sess"
  show "fst (disconnect sid user now rnd d1 d2 st) =
        Inr \<lparr>d_status = ''disconnected'', d_session_id = sid,
             d_uptime_seconds = py_int (now - s_connected_at sess)\<rparr>"
    by (rule disconnect_present(1) [OF s])
  show "sid \<notin> fst ` set (active_sessions (snd (disconnect sid user now rnd d1 d2 st)))"
    by (simp only: disconnect_present(2) [OF s] delete_notin_dom not_False_eq_True)
  show "sid \<notin> fst ` set (kill_switch_registry (snd (disconnect sid user now rnd d1 d2 st)))"
    by (simp only: disconnect_present(3) [OF s] delete_notin_dom not_False_eq_True)
  show "\<exists>row. server_logs (snd (disconnect sid user now rnd d1 d2 st)) = server_logs st @ [row] \<and>
         event_type row = ''session_end'' \<and>
         duration_seconds row = Some (py_int (now - s_connected_at sess))"
    unfolding disconnect_present(4) [OF s]
    by (rule exI [where x = "fst (create_minimal_log (server_logs st) ''session_end'' None
              (Some (py_int (now - s_connected_at sess)))
              (Some (py_int (now - s_connected_at sess) * rnd))
              (Some (s_protocol sess)) (Some (srv_flag (s_server sess))) d1 d2)"])
       (simp add: create_minimal_log_def Let_def)
qed

theorem disconnect_result_witness:
  "''s1'' \<notin> fst ` set (active_sessions empty_state) \<and>
   disconnect ''s1'' ''alice'' 20 100000 0 0 empty_state =
     (Inl (HTTPException 404 ''Session not found''), empty_state) \<and>
   map_of (active_sessions ex_state) ''s1'' = Some (ex_session ''s1'' ''alice'' True) \<and>
   fst (disconnect ''s1'' ''bob'' 20 100000 0 0 ex_state) =
     Inr \<lparr>d_status = ''disconnected'', d_session_id = ''s1'', d_uptime_seconds = 20\<rparr> \<and>
   ''s1'' \<notin> fst ` set (active_sessions (snd (disconnect ''s1'' ''bob'' 20 100000 0 0 ex_state))) \<and>
   ''s1'' \<notin> fst ` set (kill_switch_registry (snd (disconnect ''s1'' ''bob'' 20 100000 0 0 ex_state)))"
proof -
  have a: "''s1'' \<notin> fst ` set (active_sessions empty_state)"
    by (simp add: ex_defs)
  have b: "map_of (active_sessions ex_state) ''s1'' = Some (ex_session ''s1'' ''alice'' True)"
    by (simp add: ex_defs)
  have u: "py_int (20 - s_connected_at (ex_session ''s1'' ''alice'' True)) = 20"
    by (simp add: ex_defs py_int_def)
  show ?thesis
    using a b u disconnect_result [of "''s1''" empty_state "''alice''" 20 100000 0 0]
      disconnect_result [of "''s1''" ex_state "''bob''" 20 100000 0 0]
    by simp
qed

subsection \<open>C8: what a retention row holds\<close>

text \<open>
  Claim C8. Every row in the table of a reachable state has \<open>server_id\<close> null and a region
  that is null or at most two characters long (it is a flag of the server catalog). A
  row has no column for a session identifier or a caller, and none reaches it: the rows
  written by \<open>connect\<close> and \<open>connect_multi_hop\<close> are the same whatever the minted session
  identifier and whoever the caller, and the row written by \<open>disconnect\<close> is the same for
  two sessions that agree on protocol, server and connect time, whatever their identifiers,
  their owners and the caller.
\<close>

theorem retention_rows_coarse:
  assumes "reachable t st"
  shows "(\<forall>r\<in>set (server_logs st).
            server_id r = None \<and> (\<forall>c. anonymized_region r = Some c \<longrightarrow> length c \<le> 2)) \<and>
         server_logs (snd (connect req sid user n1 n2 d1 d2 st)) =
           server_logs (snd (connect req sid' user' n1 n2 d1 d2 st)) \<and>
         server_logs (snd (connect_multi_hop entry exit stealth ksw sid user n1 n2 d1 d2 st)) =
           server_logs (snd (connect_multi_hop entry exit stealth ksw sid' user' n1 n2 d1 d2 st)) \<and>
         (\<forall>sess sess'.
            map_of (active_sessions st) sid = Some sess \<and>
            map_of (active_sessions st) sid' = Some sess' \<and>
            s_protocol sess = s_protocol sess' \<and> s_server sess = s_server sess' \<and>
            s_connected_at sess = s_connected_at sess' \<longrightarrow>
            server_logs (snd (disconnect sid user now rnd d1 d2 st)) =
              server_logs (snd (disconnect sid' user' now rnd d1 d2 st)))"
proof -
  have inv: "store_inv st" using assms by (rule reachable_store_inv)
  have rows: "server_id r = None \<and> (\<forall>c. anonymized_region r = Some c \<longrightarrow> length c \<le> 2)"
    if "r \<in> set (server_logs st)" for r
  proof -
    from inv that have ok: "row_ok r" by (simp add: store_inv_def)
    have "length c \<le> 2" if "anonymized_region r = Some c" for c
    proof -
      from ok that obtain srv where "srv \<in> set SERVERS" "c = srv_flag srv"
        by (auto simp: row_ok_def)
      then show ?thesis using catalog_flag [of srv] by simp
    qed
    with ok show ?thesis by (simp add: row_ok_def)
  qed
  have c: "server_logs (snd (connect req sid user n1 n2 d1 d2 st)) =
           server_logs (snd (connect req sid' user' n1 n2 d1 d2 st))"
    by (simp only: connect_logs)
  have m: "server_logs (snd (connect_multi_hop entry exit stealth ksw sid user n1 n2 d1 d2 st)) =
           server_logs (snd (connect_multi_hop entry exit stealth ksw sid' user' n1 n2 d1 d2 st))"
    by (simp only: connect_multi_hop_logs)
  have d: "server_logs (snd (disconnect sid user now rnd d1 d2 st)) =
              server_logs (snd (disconnect sid' user' now rnd d1 d2 st))"
    if "map_of (active_sessions st) sid = Some sess \<and>
        map_of (active_sessions st) sid' = Some sess' \<and>
        s_protocol sess = s_protocol sess' \<and> s_server sess = s_server sess' \<and>
        s_connected_at sess = s_connected_at sess'" for sess sess'
    using that disconnect_present(4) [of st sid sess] disconnect_present(4) [of st sid' sess']
    by simp
  show ?thesis
    using rows c m d by blast
qed

theorem retention_rows_coarse_witness:
  "reachable 0 ex_state_two \<and>
   server_logs ex_state_two = [ex_row 0, ex_row 200000000] \<and>
   server_id (ex_row 0) = None \<and> anonymized_region (ex_row 0) = Some ''US'' \<and>
   map_of (active_sessions ex_state_two) ''s1'' = Some (ex_session ''s1'' ''alice'' True) \<and>
   map_of (active_sessions ex_state_two) ''s2'' = Some (ex_session ''s2'' ''bob'' True) \<and>
   server_logs (snd (disconnect ''s1'' ''alice'' 20 100000 7 7 ex_state_two)) =
     server_logs (snd (disconnect ''s2'' ''bob'' 20 100000 7 7 ex_state_two)) \<and>
   server_logs (snd (connect (ex_request True) ''s3'' ''alice'' 5 5 7 7 ex_state_two)) =
     server_logs (snd (connect (ex_request True) ''s4'' ''bob'' 5 5 7 7 ex_state_two))"
proof -
  note T = retention_rows_coarse [OF reachable_ex_state_two,
      where sid = "''s1''" and sid' = "''s2''" and user = "''alice''" and user' = "''bob''"
        and now = 20 and rnd = 100000 and ?d1.0 = 7 and ?d2.0 = 7]
  note U = retention_rows_coarse [OF reachable_ex_state_two,
      where sid = "''s3''" and sid' = "''s4''" and user = "''alice''" and user' = "''bob''"
        and req = "ex_request True" and ?n1.0 = 5 and ?n2.0 = 5 and ?d1.0 = 7 and ?d2.0 = 7]
  have l: "server_logs ex_state_two = [ex_row 0, ex_row 200000000]"
    by (simp add: ex_state_two_def)
  have r: "server_id (ex_row 0) = None" "anonymized_region (ex_row 0) = Some ''US''"
    by (simp_all add: ex_row_def)
  have s1: "map_of (active_sessions ex_state_two) ''s1'' = Some (ex_session ''s1'' ''alice'' True)"
    and s2: "map_of (active_sessions ex_state_two) ''s2'' = Some (ex_session ''s2'' ''bob'' True)"
    by (simp_all add: ex_state_two_def)
  have eq: "s_protocol (ex_session ''s1'' ''alice'' True) = s_protocol (ex_session ''s2'' ''bob'' True)"
    "s_server (ex_session ''s1'' ''alice'' True) = s_server (ex_session ''s2'' ''bob'' True)"
    "s_connected_at (ex_session ''s1'' ''alice'' True) = s_connected_at (ex_session ''s2'' ''bob'' True)"
    by (simp_all add: ex_session_def)
  have d: "server_logs (snd (disconnect ''s1'' ''alice'' 20 100000 7 7 ex_state_two)) =
     server_logs (snd (disconnect ''s2'' ''bob'' 20 100000 7 7 ex_state_two))"
    using T s1 s2 eq by blast
  have c: "server_logs (snd (connect (ex_request True) ''s3'' ''alice'' 5 5 7 7 ex_state_two)) =
     server_logs (snd (connect (ex_request True) ''s4'' ''bob'' 5 5 7 7 ex_state_two))"
    using U by blast
  show ?thesis
    using reachable_ex_state_two l r s1 s2 d c by blast
qed

subsection \<open>C9: the two status reads\<close>

text \<open>
  Claim C9, as stated, fails for the empty identifier: it is in no registry, yet \<open>status\<close>
  treats it as omitted and answers for the session inserted last, and
  \<open>kill_switch_status\<close> answers with the summary of all records.
\<close>

theorem status_empty_id_counterexample:
  "[] \<notin> fst ` set (active_sessions ex_state) \<and>
   fst (status (Some []) 5 ex_state) = Status_connected ''s1'' 5 \<and>
   [] \<notin> fst ` set (kill_switch_registry ex_state) \<and>
   fst (kill_switch_status (Some []) 5 ex_state) = Ks_summary 1 [(''s1'', Active, 0, 5)]"
  by (simp add: status_def kill_switch_status_def ex_defs truthy_def py_int_def py_round2_def)

text \<open>
  Claim C9, amended. \<open>status\<close> and \<open>kill_switch_status\<close> leave the session registry, the
  kill-switch registry and the retention store unchanged for every state and every
  argument, and they answer with a value, never an exception. For an unknown identifier
  that is not empty the value is the not-found one: \<open>Status_disconnected\<close> and
  \<open>Ks_not_registered\<close>. An empty identifier is treated as an omitted one: \<open>status\<close> then
  answers for the session inserted last (disconnected when there is none), and
  \<open>kill_switch_status\<close> answers with the summary of all records.
\<close>

theorem status_reads_pure:
  "snd (status session_id now st) = st \<and>
   snd (kill_switch_status session_id now st) = st \<and>
   (sid \<noteq> [] \<and> sid \<notin> fst ` set (active_sessions st) \<longrightarrow>
      fst (status (Some sid) now st) = Status_disconnected (length (active_sessions st))) \<and>
   (sid \<noteq> [] \<and> sid \<notin> fst ` set (kill_switch_registry st) \<longrightarrow>
      fst (kill_switch_status (Some sid) now st) = Ks_not_registered sid) \<and>
   status (Some []) now st = status None now st \<and>
   kill_switch_status (Some []) now st = kill_switch_status None now st \<and>
   (active_sessions st = [] \<longrightarrow> fst (status None now st) = Status_disconnected 0) \<and>
   (active_sessions st \<noteq> [] \<and> distinct (map fst (active_sessions st)) \<and>
    fst (last (active_sessions st)) \<noteq> [] \<longrightarrow>
      fst (status None now st) =
        Status_connected (fst (last (active_sessions st)))
          (py_int (now - s_connected_at (snd (last (active_sessions st)))))) \<and>
   fst (kill_switch_status None now st) =
     Ks_summary (length (kill_switch_registry st))
       (map (\<lambda>(k, ks). (k, status_ks ks, missed_heartbeats ks,
                         py_round2 (now - last_heartbeat ks)))
          (kill_switch_registry st))"
proof (intro conjI impI)
  show "snd (status session_id now st) = st"
    by (simp add: status_def Let_def split: option.splits)
  show "snd (kill_switch_status session_id now st) = st"
    by (simp add: kill_switch_status_def split: option.splits)
  show "status (Some []) now st = status None now st"
    by (simp add: status_def truthy_def)
  show "kill_switch_status (Some []) now st = kill_switch_status None now st"
    by (simp add: kill_switch_status_def truthy_def)
  show "fst (kill_switch_status None now st) =
     Ks_summary (length (kill_switch_registry st))
       (map (\<lambda>(k, ks). (k, status_ks ks, missed_heartbeats ks,
                         py_round2 (now - last_heartbeat ks)))
          (kill_switch_registry st))"
    by (simp add: kill_switch_status_def truthy_def)
next
  assume a: "sid \<noteq> [] \<and> sid \<notin> fst ` set (active_sessions st)"
  then have "map_of (active_sessions st) sid = None" by (simp only: not_in_keys)
  with a show "fst (status (Some sid) now st) = Status_disconnected (length (active_sessions st))"
    by (simp add: status_def truthy_def)
next
  assume a: "sid \<noteq> [] \<and> sid \<notin> fst ` set (kill_switch_registry st)"
  then have "map_of (kill_switch_registry st) sid = None" by (simp only: not_in_keys)
  with a show "fst (kill_switch_status (Some sid) now st) = Ks_not_registered sid"
    by (simp add: kill_switch_status_def truthy_def)
next
  assume "active_sessions st = []"
  then show "fst (status None now st) = Status_disconnected 0"
    by (simp add: status_def truthy_def)
next
  assume a: "active_sessions st \<noteq> [] \<and> distinct (map fst (active_sessions st)) \<and>
    fst (last (active_sessions st)) \<noteq> []"
  then have m: "map_of (active_sessions st) (fst (last (active_sessions st))) =
      Some (snd (last (active_sessions st)))"
    by (simp add: last_lookup del: map_of_eq_Some_iff)
  from a have ne: "active_sessions st \<noteq> []" and k: "fst (last (active_sessions st)) \<noteq> []"
    by simp_all
  show "fst (status None now st) =
        Status_connected (fst (last (active_sessions st)))
          (py_int (now - s_connected_at (snd (last (active_sessions st)))))"
    by (simp add: status_def truthy_def ne k m)
qed

theorem status_reads_pure_witness:
  "''s9'' \<noteq> [] \<and> ''s9'' \<notin> fst ` set (active_sessions ex_state) \<and>
   ''s9'' \<notin> fst ` set (kill_switch_registry ex_state) \<and>
   status (Some ''s9'') 5 ex_state = (Status_disconnected 1, ex_state) \<and>
   kill_switch_status (Some ''s9'') 5 ex_state = (Ks_not_registered ''s9'', ex_state) \<and>
   snd (status (Some ''s1'') 5 ex_state) = ex_state \<and>
   active_sessions ex_state \<noteq> [] \<and> distinct (map fst (active_sessions ex_state)) \<and>
   fst (last (active_sessions ex_state)) \<noteq> [] \<and>
   status (Some []) 5 ex_state = (Status_connected ''s1'' 5, ex_state) \<and>
   kill_switch_status (Some []) 5 ex_state = (Ks_summary 1 [(''s1'', Active, 0, 5)], ex_state) \<and>
   active_sessions empty_state = [] \<and>
   status (Some []) 5 empty_state = (Status_disconnected 0, empty_state)"
proof -
  note T = status_reads_pure [of "Some ''s9''" 5 ex_state "''s9''"]
  note E = status_reads_pure [of "Some []" 5 ex_state "''s9''"]
  note N = status_reads_pure [of "None" 5 ex_state "''s9''"]
  note Z = status_reads_pure [of "Some []" 5 empty_state "''s9''"]
  note Y = status_reads_pure [of "None" 5 empty_state "''s9''"]
  have a: "''s9'' \<noteq> []" "''s9'' \<notin> fst ` set (active_sessions ex_state)"
    "''s9'' \<notin> fst ` set (kill_switch_registry ex_state)"
    "length (active_sessions ex_state) = 1"
    by (simp_all add: ex_state_def)
  have l: "active_sessions ex_state \<noteq> []" "distinct (map fst (active_sessions ex_state))"
    "fst (last (active_sessions ex_state)) \<noteq> []"
    by (simp_all add: ex_state_def)
  have v: "fst (last (active_sessions ex_state)) = ''s1''"
    "py_int (5 - s_connected_at (snd (last (active_sessions ex_state)))) = 5"
    "length (kill_switch_registry ex_state) = 1"
    "map (\<lambda>(k, ks). (k, status_ks ks, missed_heartbeats ks, py_round2 (5 - last_heartbeat ks)))
       (kill_switch_registry ex_state) = [(''s1'', Active, 0, 5)]"
    by (simp_all add: ex_defs py_int_def py_round2_def)
  have z: "active_sessions empty_state = []"
    by (simp add: empty_state_def)
  have s: "status (Some ''s9'') 5 ex_state = (Status_disconnected 1, ex_state)"
    using T a by (simp add: prod_eq_iff)
  have k: "kill_switch_status (Some ''s9'') 5 ex_state = (Ks_not_registered ''s9'', ex_state)"
    using T a by (simp add: prod_eq_iff)
  have p: "snd (status (Some ''s1'') 5 ex_state) = ex_state"
    using status_reads_pure [of "Some ''s1''" 5 ex_state "''s9''"] by blast
  have n1: "fst (status None 5 ex_state) = Status_connected ''s1'' 5"
    using N l by (simp add: v)
  have n2: "snd (status None 5 ex_state) = ex_state" using N by blast
  have e0: "status (Some []) 5 ex_state = status None 5 ex_state" using E by blast
  have e1: "status (Some []) 5 ex_state = (Status_connected ''s1'' 5, ex_state)"
    using e0 n1 n2 by (simp add: prod_eq_iff)
  have m1: "fst (kill_switch_status None 5 ex_state) = Ks_summary 1 [(''s1'', Active, 0, 5)]"
    using N by (simp add: v)
  have m2: "snd (kill_switch_status None 5 ex_state) = ex_state" using N by blast
  have m0: "kill_switch_status (Some []) 5 ex_state = kill_switch_status None 5 ex_state"
    using E by blast
  have e2: "kill_switch_status (Some []) 5 ex_state = (Ks_summary 1 [(''s1'', Active, 0, 5)], ex_state)"
    using m0 m1 m2 by (simp add: prod_eq_iff)
  have y1: "fst (status None 5 empty_state) = Status_disconnected 0" using Y z by blast
  have y2: "snd (status None 5 empty_state) = empty_state" using Y by blast
  have y0: "status (Some []) 5 empty_state = status None 5 empty_state" using Z by blast
  have e3: "status (Some []) 5 empty_state = (Status_disconnected 0, empty_state)"
    using y0 y1 y2 by (simp add: prod_eq_iff)
  show ?thesis
    using a s k p l e1 e2 z e3 by blast
qed

subsection \<open>C10: a heartbeat for a vanished session clears the kill-switch entry\<close>

text \<open>
  Claim C10. When the id is absent from the session registry, \<open>heartbeat\<close> answers 404 and
  afterwards neither the session registry nor the kill-switch registry holds the id; the
  session registry and the retention store are left as they were.
\<close>

theorem heartbeat_absent_session_cleanup:
  assumes "sid \<notin> fst ` set (active_sessions st)"
  shows "fst (heartbeat sid user now st) =
           Inl (HTTPException 404 ''Session not found or already terminated by kill switch'') \<and>
         sid \<notin> fst ` set (active_sessions (snd (heartbeat sid user now st))) \<and>
         sid \<notin> fst ` set (kill_switch_registry (snd (heartbeat sid user now st))) \<and>
         active_sessions (snd (heartbeat sid user now st)) = active_sessions st \<and>
         server_logs (snd (heartbeat sid user now st)) = server_logs st"
proof -
  have n: "map_of (active_sessions st) sid = None"
    using assms by (simp only: not_in_keys)
  have "sid \<notin> fst ` set (kill_switch_registry (snd (heartbeat sid user now st)))"
  proof (cases "map_of (kill_switch_registry st) sid = None")
    case True
    then show ?thesis using n by (simp add: heartbeat_def not_in_keys)
  next
    case False
    then show ?thesis using n by (simp add: heartbeat_def delete_notin_dom)
  qed
  then show ?thesis
    using n assms by (simp add: heartbeat_def)
qed

theorem heartbeat_absent_session_cleanup_witness:
  "''s1'' \<notin> fst ` set (active_sessions ex_state_lingering) \<and>
   ''s1'' \<in> fst ` set (kill_switch_registry ex_state_lingering) \<and>
   fst (heartbeat ''s1'' ''alice'' 5 ex_state_lingering) =
     Inl (HTTPException 404 ''Session not found or already terminated by kill switch'') \<and>
   ''s1'' \<notin> fst ` set (kill_switch_registry (snd (heartbeat ''s1'' ''alice'' 5 ex_state_lingering)))"
proof -
  have h: "''s1'' \<notin> fst ` set (active_sessions ex_state_lingering)"
    by (simp add: ex_defs)
  have k: "''s1'' \<in> fst ` set (kill_switch_registry ex_state_lingering)"
    by (simp add: ex_defs)
  show ?thesis
    using h k heartbeat_absent_session_cleanup [OF h, of "''alice''" 5] by simp
qed

end
